theory Spec2Isabelle
  imports Complex_Main "HOL-Library.Multiset" "HOL-Library.Log_Nat"
begin

section \<open>Quantum Sudoku: the browser client and the engine behind its HTTP contract\<close>

text \<open>
  The repository's sources are a React client: \<^verbatim>\<open>App.jsx\<close> (state, fetch calls,
  handlers), \<^verbatim>\<open>SudokuBoard.jsx\<close> (rendering of cells) and \<^verbatim>\<open>InfoPanel.jsx\<close>
  (number picker). Each handler is embedded as a pure function on the component state;
  an HTTP request that a handler issues is part of its result, and the continuation that
  runs after the \<^verbatim>\<open>await\<close> is a second function taking the outcome of the request.
  A JavaScript \<^verbatim>\<open>TypeError\<close> is a value of a sum type.
\<close>

subsection \<open>JavaScript values used by the client\<close>

datatype js_error = TypeError

text \<open>
  An optional string: \<open>None\<close> is \<^verbatim>\<open>undefined\<close> (a field that the JSON object
  does not have). String concatenation turns \<^verbatim>\<open>undefined\<close> into the text
  \<^verbatim>\<open>undefined\<close>.
\<close>

definition js_string :: "string option \<Rightarrow> string" where
  "js_string s = (case s of None \<Rightarrow> ''undefined'' | Some t \<Rightarrow> t)"

definition is_digit :: "char \<Rightarrow> bool" where
  "is_digit c = (c \<in> set ''0123456789'')"

definition is_space :: "char \<Rightarrow> bool" where
  "is_space c = (c \<in> set [CHR '' '', CHR 0x09, CHR 0x0A, CHR 0x0B, CHR 0x0C, CHR 0x0D])"

definition digit_val :: "char \<Rightarrow> nat" where
  "digit_val c = of_char c - 48"

definition digits_value :: "string \<Rightarrow> nat" where
  "digits_value s = foldl (\<lambda>acc c. 10 * acc + digit_val c) 0 s"

text \<open>
  A JavaScript number is an IEEE 754 double, and the result of an arithmetic operation is
  the exact result rounded to the nearest double, a tie to the even mantissa. A double is
  modelled by its exact rational value. \<open>binade x\<close> is the exponent \<open>e\<close> with
  \<open>2 powi e \<le> \<bar>x\<bar> < 2 powi (e + 1)\<close>; the doubles near \<open>x\<close> are the multiples of
  \<open>2 powi quantum x\<close> (52 fraction bits, and \<open>2 powi (- 1074)\<close> for subnormal numbers).
  Overflow to \<^verbatim>\<open>Infinity\<close> (beyond about \<open>1.8e308\<close>) and \<^verbatim>\<open>NaN\<close> are not modelled.
\<close>

definition round_half_even :: "rat \<Rightarrow> int" where
  "round_half_even z =
     (let f = \<lfloor>z\<rfloor>; r = z - of_int f
      in if r < 1 / 2 then f else if 1 / 2 < r then f + 1 else if even f then f else f + 1)"

definition binade :: "rat \<Rightarrow> int" where
  "binade x =
     (case quotient_of \<bar>x\<bar> of
        (a, b) \<Rightarrow> let d = bitlen a - bitlen b in if 2 powi d \<le> \<bar>x\<bar> then d else d - 1)"

definition quantum :: "rat \<Rightarrow> int" where
  "quantum x = max (binade x - 52) (- 1074)"

definition to_double :: "rat \<Rightarrow> rat" where
  "to_double x = of_int (round_half_even (x / 2 powi quantum x)) * 2 powi quantum x"

text \<open>
  A JavaScript number: \<^verbatim>\<open>NaN\<close>, an infinity (\<open>True\<close> for the negative one) or a
  double, given by its exact value. The sign of a zero is not kept.
\<close>

datatype js_number = JsNaN | JsInfinity bool | JsNum rat

text \<open>
  The number value of an exact value: the nearest double, or an infinity when that is
  beyond the largest double.
\<close>

definition double_or_infinity :: "rat \<Rightarrow> js_number" where
  "double_or_infinity v =
     (let d = to_double v in if 2 ^ 1024 \<le> \<bar>d\<bar> then JsInfinity (d < 0) else JsNum d)"

text \<open>
  \<^verbatim>\<open>Number(key)\<close> on a string, by the grammar of numeric strings: white space is
  trimmed at both ends; the empty string is 0; \<^verbatim>\<open>0x\<close>, \<^verbatim>\<open>0o\<close> and \<^verbatim>\<open>0b\<close>
  start an unsigned hexadecimal, octal or binary integer; otherwise an optional sign is
  followed by \<^verbatim>\<open>Infinity\<close> or by decimal digits with an optional fraction and an
  optional exponent. Any other string is \<^verbatim>\<open>NaN\<close>. Strings are taken to be ASCII
  (the white space characters beyond ASCII are not modelled).
\<close>

definition trim :: "string \<Rightarrow> string" where
  "trim s = rev (dropWhile is_space (rev (dropWhile is_space s)))"

definition radix_digit_val :: "char \<Rightarrow> nat" where
  "radix_digit_val c =
     (if is_digit c then of_char c - 48
      else if c \<in> set ''abcdef'' then of_char c - 87
      else of_char c - 55)"

definition radix_value :: "rat \<Rightarrow> string \<Rightarrow> rat" where
  "radix_value b s = foldl (\<lambda>acc c. b * acc + of_nat (radix_digit_val c)) 0 s"

definition radix_literal :: "rat \<Rightarrow> string \<Rightarrow> string \<Rightarrow> js_number" where
  "radix_literal b allowed ds =
     (if ds \<noteq> [] \<and> list_all (\<lambda>c. c \<in> set allowed) ds
      then double_or_infinity (radix_value b ds)
      else JsNaN)"

text \<open>
  An unsigned decimal literal: digits, an optional point with digits (digits on at least
  one side of the point), an optional exponent. \<open>None\<close> when the string is no such literal.
\<close>

definition decimal_literal :: "string \<Rightarrow> rat option" where
  "decimal_literal u =
     (let ds1 = takeWhile is_digit u;
          r1 = dropWhile is_digit u;
          dot = (case r1 of [] \<Rightarrow> False | c # _ \<Rightarrow> c = CHR ''.'');
          ds2 = (if dot then takeWhile is_digit (tl r1) else []);
          r2 = (if dot then dropWhile is_digit (tl r1) else r1);
          mantissa = radix_value 10 (ds1 @ ds2)
      in if ds1 = [] \<and> ds2 = [] then None
         else (case r2 of
                 [] \<Rightarrow> Some (mantissa * 10 powi (- int (length ds2)))
               | c # r3 \<Rightarrow>
                   if c = CHR ''e'' \<or> c = CHR ''E'' then
                     (let neg = (case r3 of [] \<Rightarrow> False | d # _ \<Rightarrow> d = CHR ''-'');
                          ds3 = (case r3 of
                                   [] \<Rightarrow> []
                                 | d # r4 \<Rightarrow> if d = CHR ''-'' \<or> d = CHR ''+'' then r4 else r3);
                          e = \<lfloor>radix_value 10 ds3\<rfloor>
                      in if ds3 \<noteq> [] \<and> list_all is_digit ds3
                         then Some (mantissa *
                                10 powi ((if neg then - e else e) - int (length ds2)))
                         else None)
                   else None))"

definition js_Number :: "string \<Rightarrow> js_number" where
  "js_Number s =
     (let t = trim s in
      if t = [] then JsNum 0
      else if take 2 t = ''0x'' \<or> take 2 t = ''0X'' then
        radix_literal 16 ''0123456789abcdefABCDEF'' (drop 2 t)
      else if take 2 t = ''0o'' \<or> take 2 t = ''0O'' then radix_literal 8 ''01234567'' (drop 2 t)
      else if take 2 t = ''0b'' \<or> take 2 t = ''0B'' then radix_literal 2 ''01'' (drop 2 t)
      else
        (let neg = (hd t = CHR ''-'');
             u = (if hd t = CHR ''-'' \<or> hd t = CHR ''+'' then tl t else t)
         in if u = ''Infinity'' then JsInfinity neg
            else (case decimal_literal u of
                    None \<Rightarrow> JsNaN
                  | Some v \<Rightarrow> double_or_infinity (if neg then - v else v))))"

text \<open>
  \<^verbatim>\<open>parseInt(key, 10)\<close>: leading white space is skipped, one sign is read, then the
  longest prefix of decimal digits; with no digit the result is \<^verbatim>\<open>NaN\<close> (\<open>None\<close>).
\<close>

definition parseInt10 :: "string \<Rightarrow> int option" where
  "parseInt10 s =
     (let t = dropWhile is_space s;
          neg = (case t of [] \<Rightarrow> False | c # _ \<Rightarrow> c = CHR ''-'');
          u = (case t of [] \<Rightarrow> [] | c # r \<Rightarrow> if c = CHR ''-'' \<or> c = CHR ''+'' then r else t);
          ds = takeWhile is_digit u
      in if ds = [] then None
         else Some ((if neg then - 1 else 1) * int (digits_value ds)))"

text \<open>Decimal rendering of an integer inside a template literal.\<close>

definition digit_char :: "nat \<Rightarrow> char" where
  "digit_char n = ''0123456789'' ! (n mod 10)"

function show_nat :: "nat \<Rightarrow> string" where
  "show_nat n = (if n < 10 then [digit_char n] else show_nat (n div 10) @ [digit_char n])"
  by pat_completeness auto
termination
  by (relation "measure id") auto

declare show_nat.simps [simp del]

definition show_int :: "int \<Rightarrow> string" where
  "show_int i = (if i < 0 then CHR ''-'' # show_nat (nat (- i)) else show_nat (nat i))"

text \<open>\<^verbatim>\<open>xs.join(sep)\<close> on a list of strings.\<close>

fun join :: "string \<Rightarrow> string list \<Rightarrow> string" where
  "join sep [] = []"
| "join sep [x] = x"
| "join sep (x # y # ys) = x @ sep @ join sep (y # ys)"

subsection \<open>The board JSON\<close>

text \<open>
  A possibilities object is the list of its entries, in the order of
  \<^verbatim>\<open>Object.entries\<close>; its keys are strings, its values JSON numbers (rationals).
  A cell object has the optional fields \<^verbatim>\<open>value\<close> and \<^verbatim>\<open>possibilities\<close>
  (\<open>None\<close>: the field is \<^verbatim>\<open>undefined\<close>).
\<close>

type_synonym possibilities = "(string \<times> rat) list"

record cell =
  cell_value :: "nat option"
  cell_possibilities :: "possibilities option"

type_synonym board = "cell list list"

text \<open>The keys a possibilities object has by the data model: \<^verbatim>\<open>"1"\<close> .. \<^verbatim>\<open>"9"\<close>.\<close>

definition possibility_keys :: "string list" where
  "possibility_keys = map (\<lambda>d. [d]) ''123456789''"

definition wf_possibilities :: "possibilities \<Rightarrow> bool" where
  "wf_possibilities ps =
     (distinct (map fst ps) \<and> list_all (\<lambda>k. k \<in> set possibility_keys) (map fst ps))"

subsection \<open>SudokuBoard.jsx\<close>

text \<open>
  \<^verbatim>\<open>getProbabilityColor\<close>. The division, the subtraction and the multiplication each
  round to a double. \<^verbatim>\<open>Math.round\<close> rounds to the nearest integer, a tie towards
  \<open>+\<infinity>\<close>, which is \<^const>\<open>round\<close>.
\<close>

definition getProbabilityColor_channels :: "rat \<Rightarrow> int \<times> int \<times> int" where
  "getProbabilityColor_channels probability =
     (let normalizedProb = to_double (probability / 100);
          red = round (to_double (255 * to_double (1 - normalizedProb)));
          green = 255;
          blue = round (to_double (255 * to_double (1 - normalizedProb)))
      in (red, green, blue))"

definition getProbabilityColor :: "rat \<Rightarrow> string" where
  "getProbabilityColor probability =
     (case getProbabilityColor_channels probability of
        (red, green, blue) \<Rightarrow>
          ''rgb('' @ show_int red @ '', '' @ show_int green @ '', '' @ show_int blue @ '')'')"

text \<open>
  \<^verbatim>\<open>sortPossibilities\<close>. The comparator \<^verbatim>\<open>(a, b) => a[0] - b[0]\<close> yields
  \<^verbatim>\<open>NaN\<close> when a key did not parse, which \<^verbatim>\<open>Array.prototype.sort\<close> reads as 0.
  The sort is stable; it is written as an insertion sort that places an element before
  the first one it compares less than.
\<close>

definition compare_number :: "int option \<times> 'p \<Rightarrow> int option \<times> 'p \<Rightarrow> int" where
  "compare_number a b =
     (case (fst a, fst b) of (Some x, Some y) \<Rightarrow> x - y | _ \<Rightarrow> 0)"

fun js_insert :: "('a \<Rightarrow> 'a \<Rightarrow> int) \<Rightarrow> 'a \<Rightarrow> 'a list \<Rightarrow> 'a list" where
  "js_insert cmp x [] = [x]"
| "js_insert cmp x (y # ys) = (if cmp x y < 0 then x # y # ys else y # js_insert cmp x ys)"

definition js_sort :: "('a \<Rightarrow> 'a \<Rightarrow> int) \<Rightarrow> 'a list \<Rightarrow> 'a list" where
  "js_sort cmp xs = foldl (\<lambda>acc x. js_insert cmp x acc) [] xs"

definition sortPossibilities :: "possibilities \<Rightarrow> (int option \<times> rat) list" where
  "sortPossibilities ps =
     js_sort compare_number (map (\<lambda>(number, probability). (parseInt10 number, probability)) ps)"

text \<open>
  The content of one cell (lines 53 to 71 of the component): the fixed value, or one
  entry per possibility with its number, its background colour and its
  \<^verbatim>\<open>data-probability\<close> text. \<^verbatim>\<open>Object.entries(undefined)\<close> throws.
  \<^verbatim>\<open>toFixed(0)\<close> rounds a tie away from zero and keeps the sign of a negative number.
\<close>

definition toFixed0 :: "rat \<Rightarrow> string" where
  "toFixed0 x = (if x < 0 then CHR ''-'' # show_nat (nat (round (- x)))
                 else show_nat (nat (round x)))"

record possibility_view =
  pv_number :: "int option"
  pv_backgroundColor :: string
  pv_data_probability :: string

datatype cell_view = FixedValue nat | Possibilities "possibility_view list"

definition render_possibility :: "int option \<times> rat \<Rightarrow> possibility_view" where
  "render_possibility e =
     (case e of (number, probability) \<Rightarrow>
        \<lparr>pv_number = number,
         pv_backgroundColor = getProbabilityColor probability,
         pv_data_probability = toFixed0 probability @ ''%''\<rparr>)"

definition render_cell :: "cell \<Rightarrow> js_error + cell_view" where
  "render_cell c =
     (let isFixed = (cell_value c \<noteq> None)
      in if isFixed then Inr (FixedValue (the (cell_value c)))
         else (case cell_possibilities c of
                 None \<Rightarrow> Inl TypeError
               | Some ps \<Rightarrow> Inr (Possibilities (map render_possibility (sortPossibilities ps)))))"

subsection \<open>App.jsx\<close>

text \<open>
  An HTTP request as \<^verbatim>\<open>fetch\<close> receives it; the body is the JSON value given to
  \<^verbatim>\<open>JSON.stringify\<close>. The outcome of a request is \<open>Inl m\<close> when \<^verbatim>\<open>fetch\<close> or
  \<^verbatim>\<open>response.json()\<close> throws an error with message \<open>m\<close>, and \<open>Inr data\<close> with the
  parsed body otherwise.
\<close>

datatype json = JNum nat | JArr "json list" | JObj "(string \<times> json) list"

record request =
  req_method :: string
  req_url :: string
  req_headers :: "(string \<times> string) list"
  req_body :: "json option"

text \<open>The state of the \<^verbatim>\<open>App\<close> component (\<open>None\<close> is \<^verbatim>\<open>null\<close>).\<close>

record app_state =
  board :: "board option"
  selectedCell :: "(nat \<times> nat) option"
  message :: "string option"
  loading :: bool
  difficulty :: string

definition initial_state :: app_state where
  "initial_state =
     \<lparr>board = None, selectedCell = None, message = Some ''Welcome to Quantum Sudoku!'',
      loading = True, difficulty = ''medium''\<rparr>"


record assign_response =
  a_success :: bool
  a_board :: "board option"
  a_message :: "string option"
  a_detail :: "string option"



definition fetchBoard_done :: "app_state \<Rightarrow> string + board option \<Rightarrow> app_state" where
  "fetchBoard_done st outcome =
     (case outcome of
        Inr data \<Rightarrow>
          st\<lparr>board := data,
             message := Some ''Board loaded. Click on a cell to start playing!'',
             loading := False\<rparr>
      | Inl error_message \<Rightarrow>
          st\<lparr>message := Some (''Error loading board: '' @ error_message),
             loading := False\<rparr>)"

text \<open>
  \<^verbatim>\<open>resetBoard(newDifficulty = difficulty)\<close>: an omitted argument (\<open>None\<close>) takes the
  stored difficulty. The continuation keeps the \<open>newDifficulty\<close> of the call.
\<close>

definition resetBoard_arg :: "app_state \<Rightarrow> string option \<Rightarrow> string" where
  "resetBoard_arg st arg = (case arg of None \<Rightarrow> difficulty st | Some d \<Rightarrow> d)"

definition resetBoard_request :: "string \<Rightarrow> request" where
  "resetBoard_request newDifficulty =
     \<lparr>req_method = ''POST'',
      req_url = ''http://localhost:8000/reset?difficulty='' @ newDifficulty,
      req_headers = [], req_body = None\<rparr>"

definition resetBoard :: "app_state \<Rightarrow> string option \<Rightarrow> app_state \<times> request" where
  "resetBoard st arg =
     (let newDifficulty = resetBoard_arg st arg
      in (st\<lparr>loading := True\<rparr>, resetBoard_request newDifficulty))"


text \<open>\<^verbatim>\<open>assignCellValues\<close>: up to the first \<^verbatim>\<open>await\<close>, and after it.\<close>

definition assign_request :: "nat \<Rightarrow> nat \<Rightarrow> nat list \<Rightarrow> request" where
  "assign_request row col candidates =
     \<lparr>req_method = ''POST'', req_url = ''http://localhost:8000/assign'',
      req_headers = [(''Content-Type'', ''application/json'')],
      req_body = Some (JObj [(''row'', JNum row), (''col'', JNum col),
                             (''candidates'', JArr (map JNum candidates))])\<rparr>"

definition assignCellValues ::
  "app_state \<Rightarrow> nat \<Rightarrow> nat \<Rightarrow> nat list \<Rightarrow> app_state \<times> request" where
  "assignCellValues st row col candidates =
     (st\<lparr>loading := True\<rparr>, assign_request row col candidates)"

definition assignCellValues_done :: "app_state \<Rightarrow> string + assign_response \<Rightarrow> app_state" where
  "assignCellValues_done st outcome =
     (case outcome of
        Inr data \<Rightarrow>
          if a_success data then
            st\<lparr>board := a_board data, message := a_message data, loading := False\<rparr>
          else
            st\<lparr>message := Some (''Error assigning values: '' @ js_string (a_detail data)),
               loading := False\<rparr>
      | Inl error_message \<Rightarrow>
          st\<lparr>message := Some (''Error assigning values: '' @ error_message),
             loading := False\<rparr>)"

text \<open>
  \<^verbatim>\<open>board[row][col]\<close>: \<open>None\<close> when the board is \<^verbatim>\<open>null\<close> or has no such cell; the
  handler then throws on the property access.
\<close>

definition cell_at :: "board option \<Rightarrow> nat \<Rightarrow> nat \<Rightarrow> cell option" where
  "cell_at b row col =
     (case b of
        None \<Rightarrow> None
      | Some rows \<Rightarrow>
          if row < length rows \<and> col < length (rows ! row) then Some (rows ! row ! col)
          else None)"

text \<open>
  \<^verbatim>\<open>handleNumberSelection\<close>. The result is the state after the handler's synchronous
  part and the request it has sent, if any.
\<close>

definition currentPossibilities :: "possibilities \<Rightarrow> js_number list" where
  "currentPossibilities ps = map js_Number (map fst ps)"

definition validNumbers :: "possibilities \<Rightarrow> nat list \<Rightarrow> nat list" where
  "validNumbers ps numbers =
     filter (\<lambda>n. JsNum (of_nat n) \<in> set (currentPossibilities ps)) numbers"

definition handleNumberSelection ::
  "app_state \<Rightarrow> nat list \<Rightarrow> js_error + app_state \<times> request option" where
  "handleNumberSelection st numbers =
     (case selectedCell st of
        None \<Rightarrow> Inr (st\<lparr>message := Some ''Please select a cell first!''\<rparr>, None)
      | Some (row, col) \<Rightarrow>
          (case cell_at (board st) row col of
             None \<Rightarrow> Inl TypeError
           | Some c \<Rightarrow>
               if cell_value c \<noteq> None then
                 Inr (st\<lparr>message :=
                        Some (''Cell ('' @ show_nat row @ '', '' @ show_nat col @
                              '') is already fixed and cannot be changed.'')\<rparr>, None)
               else
                 (case cell_possibilities c of
                    None \<Rightarrow> Inl TypeError
                  | Some ps \<Rightarrow>
                      let valid = validNumbers ps numbers in
                      if length valid = 0 then
                        Inr (st\<lparr>message :=
                               Some ''Selected numbers are not valid for this cell!''\<rparr>, None)
                      else
                        let st1 =
                          (if length valid \<noteq> length numbers then
                             st\<lparr>message :=
                                  Some (''Only '' @ join '', '' (map show_nat valid) @
                                        '' are valid for this cell.'')\<rparr>
                           else st)
                        in (case assignCellValues st1 row col valid of
                              (st2, req) \<Rightarrow> Inr (st2, Some req)))))"

definition handleDifficultyChange ::
  "app_state \<Rightarrow> string \<Rightarrow> (app_state \<times> request) option" where
  "handleDifficultyChange st newDifficulty =
     (if newDifficulty \<noteq> difficulty st then Some (resetBoard st (Some newDifficulty))
      else None)"

subsection \<open>InfoPanel.jsx\<close>

text \<open>
  The panel keeps the list \<open>selectedNumbers\<close>. \<^verbatim>\<open>handleAssign\<close> either alerts or calls
  \<open>onNumberSelection\<close> and then clears the list; when the callback throws, the list is
  not cleared.
\<close>

definition handleNumberToggle :: "nat list \<Rightarrow> nat \<Rightarrow> nat list" where
  "handleNumberToggle selectedNumbers number =
     (if number \<in> set selectedNumbers then filter (\<lambda>n. n \<noteq> number) selectedNumbers
      else selectedNumbers @ [number])"

datatype 'r assign_click = Alert string | Called 'r

definition handleAssign ::
  "(nat list \<Rightarrow> js_error + 'r) \<Rightarrow> nat list \<Rightarrow> js_error + 'r assign_click \<times> nat list" where
  "handleAssign onNumberSelection selectedNumbers =
     (if length selectedNumbers = 0 then
        Inr (Alert ''Please select at least one number!'', selectedNumbers)
      else
        (case onNumberSelection selectedNumbers of
           Inl e \<Rightarrow> Inl e
         | Inr r \<Rightarrow> Inr (Called r, [])))"

definition isNumberAvailable :: "(nat \<times> nat) option \<Rightarrow> cell option \<Rightarrow> nat \<Rightarrow> js_error + bool" where
  "isNumberAvailable sel cellData number =
     (case (sel, cellData) of
        (Some _, Some c) \<Rightarrow>
          if cell_value c \<noteq> None then Inr False
          else (case cell_possibilities c of
                  None \<Rightarrow> Inl TypeError
                | Some ps \<Rightarrow> Inr (JsNum (of_nat number) \<in> set (currentPossibilities ps)))
      | _ \<Rightarrow> Inr False)"

text \<open>
  The \<^verbatim>\<open>App\<close> passes \<^verbatim>\<open>handleNumberSelection\<close> as \<open>onNumberSelection\<close>: a click on
  "Assign Selected Numbers" with the panel's list.
\<close>

definition click_assign ::
  "app_state \<Rightarrow> nat list \<Rightarrow> js_error + (app_state \<times> request option) assign_click \<times> nat list" where
  "click_assign st selectedNumbers = handleAssign (handleNumberSelection st) selectedNumbers"

text \<open>Example values: a 9 by 9 board of one superposition cell, with a cell selected.\<close>

definition example_cell :: cell where
  "example_cell = \<lparr>cell_value = None, cell_possibilities = Some [(''2'', 50), (''5'', 50)]\<rparr>"

definition example_fixed_cell :: cell where
  "example_fixed_cell = \<lparr>cell_value = Some 4, cell_possibilities = None\<rparr>"

definition example_other_cell :: cell where
  "example_other_cell = \<lparr>cell_value = None, cell_possibilities = Some [(''2'', 40), (''7'', 60)]\<rparr>"

definition example_mixed_state :: "nat \<times> nat \<Rightarrow> app_state" where
  "example_mixed_state sel =
     \<lparr>board = Some ((replicate 9 (replicate 9 example_cell))[0 := replicate 9 example_other_cell]),
      selectedCell = Some sel,
      message = Some ''Board loaded. Click on a cell to start playing!'',
      loading = False, difficulty = ''medium''\<rparr>"

definition example_state :: "cell \<Rightarrow> app_state" where
  "example_state c =
     \<lparr>board = Some (replicate 9 (replicate 9 c)), selectedCell = Some (2, 3),
      message = Some ''Board loaded. Click on a cell to start playing!'',
      loading = False, difficulty = ''medium''\<rparr>"

section \<open>Properties of the client\<close>

subsection \<open>Rounding to a double\<close>

lemma round_half_even_of_int: "round_half_even (of_int n) = n"
  by (simp add: round_half_even_def)

lemma round_half_even_bounds:
  "\<lfloor>z\<rfloor> \<le> round_half_even z" "round_half_even z \<le> \<lfloor>z\<rfloor> + 1"
  by (simp_all add: round_half_even_def Let_def)

lemma round_half_even_mono:
  assumes "z \<le> w"
  shows "round_half_even z \<le> round_half_even w"
proof (cases "\<lfloor>z\<rfloor> = \<lfloor>w\<rfloor>")
  case True
  with assms have "z - of_int \<lfloor>z\<rfloor> \<le> w - of_int \<lfloor>w\<rfloor>" by simp
  with True show ?thesis
    by (auto simp: round_half_even_def Let_def)
next
  case False
  with assms have "\<lfloor>z\<rfloor> < \<lfloor>w\<rfloor>"
    using floor_mono [of z w] by linarith
  then have "round_half_even z \<le> \<lfloor>w\<rfloor>"
    using round_half_even_bounds(2) [of z] by linarith
  also have "\<dots> \<le> round_half_even w"
    by (rule round_half_even_bounds)
  finally show ?thesis .
qed

lemma round_half_even_minus: "round_half_even (- z) = - round_half_even z"
proof (cases "z = of_int \<lfloor>z\<rfloor>")
  case True
  then obtain n where "z = of_int n" ..
  then have "- z = of_int (- n)" by simp
  then show ?thesis
    using \<open>z = of_int n\<close> by (simp only: round_half_even_of_int)
next
  case False
  then have fm: "\<lfloor>- z\<rfloor> = - \<lfloor>z\<rfloor> - 1"
    by (simp add: floor_minus ceiling_altdef)
  have frac: "- z - of_int \<lfloor>- z\<rfloor> = 1 - (z - of_int \<lfloor>z\<rfloor>)"
    by (simp add: fm)
  show ?thesis
    unfolding round_half_even_def Let_def frac unfolding fm
    by (auto simp: algebra_simps)
qed

lemma binade_bounds:
  assumes "x \<noteq> 0"
  shows "2 powi binade x \<le> \<bar>x\<bar>" and "\<bar>x\<bar> < 2 powi (binade x + 1)"
proof -
  obtain a b where q: "quotient_of \<bar>x\<bar> = (a, b)" by (cases "quotient_of \<bar>x\<bar>")
  then have b: "0 < b" and x: "\<bar>x\<bar> = of_int a / of_int b"
    by (simp_all add: quotient_of_denom_pos quotient_of_div)
  from assms have "0 < \<bar>x\<bar>" by simp
  with x b have a: "0 < a"
    by (simp add: zero_less_divide_iff)
  define la where "la = bitlen a"
  define lb where "lb = bitlen b"
  have la: "1 \<le> la" and lb: "1 \<le> lb"
    using a b bitlen_eq_zero_iff [of a] bitlen_eq_zero_iff [of b] bitlen_nonneg [of a]
      bitlen_nonneg [of b]
    unfolding la_def lb_def by linarith+
  have pw: "(2::rat) powi k = of_int (2 ^ nat k)" if "0 \<le> k" for k
    using that by (simp add: power_int_nonneg_exp)
  from bitlen_bounds [OF a] have "2 ^ nat (la - 1) \<le> a" "a < 2 ^ nat la"
    by (simp_all add: la_def)
  then have "(of_int (2 ^ nat (la - 1)) :: rat) \<le> of_int a"
    "(of_int a :: rat) < of_int (2 ^ nat la)"
    by (simp_all only: of_int_le_iff of_int_less_iff)
  then have a_lo: "(2::rat) powi (la - 1) \<le> of_int a" and a_hi: "of_int a < (2::rat) powi la"
    using la by (simp_all only: pw [symmetric])
  from bitlen_bounds [OF b] have "2 ^ nat (lb - 1) \<le> b" "b < 2 ^ nat lb"
    by (simp_all add: lb_def)
  then have "(of_int (2 ^ nat (lb - 1)) :: rat) \<le> of_int b"
    "(of_int b :: rat) < of_int (2 ^ nat lb)"
    by (simp_all only: of_int_le_iff of_int_less_iff)
  then have b_lo: "(2::rat) powi (lb - 1) \<le> of_int b" and b_hi: "of_int b < (2::rat) powi lb"
    using lb by (simp_all only: pw [symmetric])
  have bpos: "(0::rat) < of_int b" using b by simp
  have upper: "\<bar>x\<bar> < 2 powi (la - lb + 1)"
  proof -
    have "of_int a < (2::rat) powi (la - lb + 1) * 2 powi (lb - 1)"
      using a_hi by (simp flip: power_int_add)
    also have "\<dots> \<le> 2 powi (la - lb + 1) * of_int b"
      using b_lo by (intro mult_left_mono) simp_all
    finally show ?thesis
      unfolding x using bpos by (simp add: pos_divide_less_eq)
  qed
  have lower: "2 powi (la - lb - 1) \<le> \<bar>x\<bar>"
  proof -
    have "(2::rat) powi (la - lb - 1) * of_int b \<le> 2 powi (la - lb - 1) * 2 powi lb"
      using b_hi by (intro mult_left_mono) simp_all
    also have "\<dots> = 2 powi (la - 1)"
      by (simp flip: power_int_add)
    also have "\<dots> \<le> of_int a" by (rule a_lo)
    finally show ?thesis
      unfolding x using bpos by (simp add: pos_le_divide_eq)
  qed
  have bin: "binade x = (if 2 powi (la - lb) \<le> \<bar>x\<bar> then la - lb else la - lb - 1)"
    by (simp add: binade_def q la_def lb_def Let_def)
  show "2 powi binade x \<le> \<bar>x\<bar>"
    using lower by (simp add: bin)
  show "\<bar>x\<bar> < 2 powi (binade x + 1)"
    using upper by (simp add: bin)
qed

lemma quantum_minus: "quantum (- x) = quantum x"
  by (simp add: quantum_def binade_def)

lemma to_double_minus: "to_double (- x) = - to_double x"
  by (simp add: to_double_def quantum_minus round_half_even_minus)

lemma two_powi_pos: "(0::rat) < 2 powi k"
  by (simp add: zero_less_power_int)

lemma to_double_nonneg:
  assumes "0 \<le> x"
  shows "0 \<le> to_double x"
proof -
  have "0 \<le> x / 2 powi quantum x"
    using assms two_powi_pos [of "quantum x"] by simp
  then have "0 \<le> \<lfloor>x / 2 powi quantum x\<rfloor>" by simp
  also have "\<dots> \<le> round_half_even (x / 2 powi quantum x)"
    by (rule round_half_even_bounds)
  finally have "(0::rat) \<le> of_int (round_half_even (x / 2 powi quantum x))" by simp
  then show ?thesis
    unfolding to_double_def using two_powi_pos [of "quantum x"] by (intro mult_nonneg_nonneg) simp_all
qed

lemma binade_mono:
  assumes "x \<noteq> 0" "\<bar>x\<bar> \<le> \<bar>y\<bar>"
  shows "binade x \<le> binade y"
proof (rule ccontr)
  assume "\<not> binade x \<le> binade y"
  then have "binade y + 1 \<le> binade x" by simp
  then have "(2::rat) powi (binade y + 1) \<le> 2 powi binade x"
    by (intro power_int_increasing) simp_all
  also have "\<dots> \<le> \<bar>x\<bar>" using assms(1) by (rule binade_bounds)
  also have "\<dots> \<le> \<bar>y\<bar>" by (rule assms)
  finally have "2 powi (binade y + 1) \<le> \<bar>y\<bar>" .
  moreover from assms have "y \<noteq> 0" by auto
  then have "\<bar>y\<bar> < 2 powi (binade y + 1)" by (rule binade_bounds)
  ultimately show False by simp
qed

lemma quantum_mono:
  assumes "x \<noteq> 0" "\<bar>x\<bar> \<le> \<bar>y\<bar>"
  shows "quantum x \<le> quantum y"
  using binade_mono [OF assms] by (simp add: quantum_def)

lemma below_quantum:
  assumes "x \<noteq> 0"
  shows "\<bar>x\<bar> < 2 powi (quantum x + 53)"
proof -
  have "\<bar>x\<bar> < 2 powi (binade x + 1)" using assms by (rule binade_bounds)
  also have "\<dots> \<le> 2 powi (quantum x + 53)"
    by (intro power_int_increasing) (simp_all add: quantum_def)
  finally show ?thesis .
qed

lemma to_double_pos_mono:
  assumes "0 < x" "x \<le> y"
  shows "to_double x \<le> to_double y"
proof -
  let ?qx = "quantum x" and ?qy = "quantum y"
  from assms have x0: "x \<noteq> 0" and y0: "y \<noteq> 0" and ypos: "0 < y" by simp_all
  from assms have "\<bar>x\<bar> \<le> \<bar>y\<bar>" by simp
  with x0 have q: "?qx \<le> ?qy" by (rule quantum_mono)
  show ?thesis
  proof (cases "?qx = ?qy")
    case True
    have "x / 2 powi ?qy \<le> y / 2 powi ?qy"
      using assms(2) two_powi_pos [of ?qy] by (simp add: divide_right_mono)
    then have "round_half_even (x / 2 powi ?qy) \<le> round_half_even (y / 2 powi ?qy)"
      by (rule round_half_even_mono)
    then have "(of_int (round_half_even (x / 2 powi ?qy)) :: rat) \<le>
        of_int (round_half_even (y / 2 powi ?qy))"
      by simp
    then show ?thesis
      unfolding to_double_def True using two_powi_pos [of ?qy] by (intro mult_right_mono) simp_all
  next
    case False
    with q have lt: "?qx + 1 \<le> ?qy" by simp
    have "x < 2 powi (?qx + 53)" using below_quantum [OF x0] assms(1) by simp
    then have "x / 2 powi ?qx < 2 powi 53"
      using two_powi_pos [of ?qx] by (simp add: pos_divide_less_eq power_int_add)
    then have "x / 2 powi ?qx \<le> of_int (2 ^ 53)" by simp
    then have "round_half_even (x / 2 powi ?qx) \<le> round_half_even (of_int (2 ^ 53))"
      by (rule round_half_even_mono)
    then have "round_half_even (x / 2 powi ?qx) \<le> 2 ^ 53"
      by (simp only: round_half_even_of_int)
    then have "(of_int (round_half_even (x / 2 powi ?qx)) :: rat) \<le> of_int (2 ^ 53)"
      by (simp only: of_int_le_iff)
    then have "to_double x \<le> of_int (2 ^ 53) * 2 powi ?qx"
      unfolding to_double_def using two_powi_pos [of ?qx] by (intro mult_right_mono) simp_all
    also have "\<dots> = 2 powi (?qx + 1 + 52)"
      by (simp add: power_int_add)
    also have "\<dots> \<le> 2 powi (?qy + 52)"
      using lt by (intro power_int_increasing) simp_all
    finally have upper: "to_double x \<le> 2 powi (?qy + 52)" .
    have "- 1074 \<le> ?qx" by (simp add: quantum_def)
    with lt have "?qy = binade y - 52" by (simp add: quantum_def max_def split: if_splits)
    then have "2 powi (?qy + 52) = (2::rat) powi binade y" by simp
    also have "\<dots> \<le> \<bar>y\<bar>" using y0 by (rule binade_bounds)
    finally have "2 powi (?qy + 52) \<le> y" using ypos by simp
    then have "(of_int (2 ^ 52) :: rat) \<le> y / 2 powi ?qy"
      using two_powi_pos [of ?qy] by (simp add: pos_le_divide_eq power_int_add mult.commute)
    then have "round_half_even (of_int (2 ^ 52)) \<le> round_half_even (y / 2 powi ?qy)"
      by (rule round_half_even_mono)
    then have "2 ^ 52 \<le> round_half_even (y / 2 powi ?qy)"
      by (simp only: round_half_even_of_int)
    then have "(of_int (2 ^ 52) :: rat) \<le> of_int (round_half_even (y / 2 powi ?qy))"
      by (simp only: of_int_le_iff)
    then have "of_int (2 ^ 52) * 2 powi ?qy \<le> to_double y"
      unfolding to_double_def using two_powi_pos [of ?qy] by (intro mult_right_mono) simp_all
    moreover have "of_int (2 ^ 52) * 2 powi ?qy = (2::rat) powi (?qy + 52)"
      by (simp add: power_int_add)
    ultimately have "2 powi (?qy + 52) \<le> to_double y" by simp
    with upper show ?thesis by simp
  qed
qed

lemma to_double_zero: "to_double 0 = 0"
  by (simp add: to_double_def round_half_even_def)

lemma to_double_mono:
  assumes "x \<le> y"
  shows "to_double x \<le> to_double y"
proof -
  consider "0 < x" | "x \<le> 0" "0 \<le> y" | "y < 0" by linarith
  then show ?thesis
  proof cases
    case 1
    then show ?thesis using assms by (rule to_double_pos_mono)
  next
    case 2
    from 2(1) have "0 \<le> to_double (- x)" by (intro to_double_nonneg) simp
    then have "to_double x \<le> 0" by (simp add: to_double_minus)
    also have "0 \<le> to_double y" using 2(2) by (rule to_double_nonneg)
    finally show ?thesis .
  next
    case 3
    then have "0 < - y" "- y \<le> - x" using assms by simp_all
    then have "to_double (- y) \<le> to_double (- x)" by (rule to_double_pos_mono)
    then show ?thesis by (simp add: to_double_minus)
  qed
qed

lemma to_double_exact: "to_double 1 = 1" "to_double 255 = 255" "to_double 100 = 100"
  by code_simp+

subsection \<open>The colour gradient\<close>

lemma show_int_255: "show_int 255 = ''255''"
  by code_simp

lemma channels_red:
  "fst (getProbabilityColor_channels p) =
     round (to_double (255 * to_double (1 - to_double (p / 100))))"
  by (simp add: getProbabilityColor_channels_def Let_def)

lemma channels_blue:
  "snd (snd (getProbabilityColor_channels p)) =
     round (to_double (255 * to_double (1 - to_double (p / 100))))"
  by (simp add: getProbabilityColor_channels_def Let_def)

lemma color_text:
  "getProbabilityColor p =
     ''rgb('' @ show_int (round (to_double (255 * to_double (1 - to_double (p / 100))))) @
       '', 255, '' @
       show_int (round (to_double (255 * to_double (1 - to_double (p / 100))))) @ '')''"
  by (simp add: getProbabilityColor_def getProbabilityColor_channels_def Let_def show_int_255)

lemma round_channel_mono:
  fixes p q :: rat
  assumes "p \<le> q"
  shows "round (to_double (255 * to_double (1 - to_double (q / 100)))) \<le>
         round (to_double (255 * to_double (1 - to_double (p / 100))))"
proof -
  from assms have "p / 100 \<le> q / 100" by simp
  then have "to_double (p / 100) \<le> to_double (q / 100)" by (rule to_double_mono)
  then have "1 - to_double (q / 100) \<le> 1 - to_double (p / 100)" by simp
  then have "to_double (1 - to_double (q / 100)) \<le> to_double (1 - to_double (p / 100))"
    by (rule to_double_mono)
  then have "255 * to_double (1 - to_double (q / 100)) \<le>
      255 * to_double (1 - to_double (p / 100))"
    by simp
  then have "to_double (255 * to_double (1 - to_double (q / 100))) \<le>
      to_double (255 * to_double (1 - to_double (p / 100)))"
    by (rule to_double_mono)
  then show ?thesis by (rule round_mono)
qed

lemma channel_ends:
  "round (to_double (255 * to_double (1 - to_double (0 / 100)))) = 255"
  "round (to_double (255 * to_double (1 - to_double (100 / 100)))) = 0"
  by (simp_all add: to_double_zero to_double_exact)

lemma channel_range:
  fixes p :: rat
  assumes "0 \<le> p" "p \<le> 100"
  shows "0 \<le> round (to_double (255 * to_double (1 - to_double (p / 100)))) \<and>
         round (to_double (255 * to_double (1 - to_double (p / 100)))) \<le> 255"
proof -
  have "round (to_double (255 * to_double (1 - to_double (100 / 100)))) \<le>
      round (to_double (255 * to_double (1 - to_double (p / 100))))"
    using assms(2) by (rule round_channel_mono)
  then have lo: "0 \<le> round (to_double (255 * to_double (1 - to_double (p / 100))))"
    by (simp only: channel_ends)
  have "round (to_double (255 * to_double (1 - to_double (p / 100)))) \<le>
      round (to_double (255 * to_double (1 - to_double (0 / 100))))"
    using assms(1) by (rule round_channel_mono)
  then have hi: "round (to_double (255 * to_double (1 - to_double (p / 100)))) \<le> 255"
    by (simp only: channel_ends)
  from lo hi show ?thesis ..
qed

text \<open>
  C6, as stated, fails when its formula is read in exact arithmetic: at the probability 90
  the exact value of \<open>255 * (1 - 90 / 100)\<close> is 25.5, which rounds to 26, but in double
  arithmetic \<^verbatim>\<open>90 / 100\<close> is the double next to 0.9 (a little above it),
  \<^verbatim>\<open>1 - 90 / 100\<close> is \<^verbatim>\<open>0.09999999999999998\<close>, the product is
  \<^verbatim>\<open>25.499999999999993\<close>, and the colour is \<^verbatim>\<open>rgb(25, 255, 25)\<close>.
\<close>

theorem getProbabilityColor_counterexample:
  "getProbabilityColor 90 = ''rgb(25, 255, 25)'' \<and>
   round (255 * (1 - 90 / 100) :: rat) = 26 \<and>
   to_double (255 * to_double (1 - to_double (90 / 100))) =
     3588805953060863 / 140737488355328"
proof -
  have shown: "getProbabilityColor 90 = ''rgb(25, 255, 25)''" by code_simp
  have exact: "round (255 * (1 - 90 / 100) :: rat) = 26" by code_simp
  have double: "to_double (255 * to_double (1 - to_double (90 / 100))) =
      3588805953060863 / 140737488355328"
    by code_simp
  from shown exact double show ?thesis by (intro conjI)
qed

text \<open>
  C6, amended. For a probability \<open>p\<close> in \<open>[0, 100]\<close> the colour is the text
  \<^verbatim>\<open>rgb(r, 255, r)\<close> where \<open>r\<close> is \<^verbatim>\<open>Math.round(255 * (1 - p / 100))\<close> evaluated in
  double arithmetic (each operation rounded to the nearest double), a channel value
  between 0 and 255; probability 0 gives white \<^verbatim>\<open>rgb(255, 255, 255)\<close>, probability 100
  gives green \<^verbatim>\<open>rgb(0, 255, 0)\<close>, and the red and the blue channel do not increase when
  the probability grows.
\<close>

theorem getProbabilityColor_gradient:
  "(0 \<le> p \<and> p \<le> 100 \<longrightarrow>
      getProbabilityColor p =
        ''rgb('' @ show_int (round (to_double (255 * to_double (1 - to_double (p / 100))))) @
          '', 255, '' @
          show_int (round (to_double (255 * to_double (1 - to_double (p / 100))))) @ '')'' \<and>
      0 \<le> round (to_double (255 * to_double (1 - to_double (p / 100)))) \<and>
      round (to_double (255 * to_double (1 - to_double (p / 100)))) \<le> 255) \<and>
   getProbabilityColor 0 = ''rgb(255, 255, 255)'' \<and>
   getProbabilityColor 100 = ''rgb(0, 255, 0)'' \<and>
   (0 \<le> p \<and> p \<le> q \<and> q \<le> 100 \<longrightarrow>
      fst (getProbabilityColor_channels q) \<le> fst (getProbabilityColor_channels p) \<and>
      snd (snd (getProbabilityColor_channels q)) \<le> snd (snd (getProbabilityColor_channels p)))"
proof -
  have white: "getProbabilityColor 0 = ''rgb(255, 255, 255)''" by code_simp
  have green: "getProbabilityColor 100 = ''rgb(0, 255, 0)''" by code_simp
  have mono: "p \<le> q \<Longrightarrow>
      fst (getProbabilityColor_channels q) \<le> fst (getProbabilityColor_channels p) \<and>
      snd (snd (getProbabilityColor_channels q)) \<le> snd (snd (getProbabilityColor_channels p))"
    by (simp only: channels_red channels_blue round_channel_mono)
  have range: "0 \<le> p \<Longrightarrow> p \<le> 100 \<Longrightarrow>
      0 \<le> round (to_double (255 * to_double (1 - to_double (p / 100)))) \<and>
      round (to_double (255 * to_double (1 - to_double (p / 100)))) \<le> 255"
    by (rule channel_range)
  show ?thesis
  proof (intro conjI impI)
    show "getProbabilityColor p =
        ''rgb('' @ show_int (round (to_double (255 * to_double (1 - to_double (p / 100))))) @
          '', 255, '' @
          show_int (round (to_double (255 * to_double (1 - to_double (p / 100))))) @ '')''"
      by (rule color_text)
  next
    assume "0 \<le> p \<and> p \<le> 100"
    then have "0 \<le> p" "p \<le> 100" by simp_all
    then have r: "0 \<le> round (to_double (255 * to_double (1 - to_double (p / 100)))) \<and>
      round (to_double (255 * to_double (1 - to_double (p / 100)))) \<le> 255"
      by (rule range)
    from r show "0 \<le> round (to_double (255 * to_double (1 - to_double (p / 100))))" ..
    from r show "round (to_double (255 * to_double (1 - to_double (p / 100)))) \<le> 255" ..
  next
    show "getProbabilityColor 0 = ''rgb(255, 255, 255)''" by (rule white)
  next
    show "getProbabilityColor 100 = ''rgb(0, 255, 0)''" by (rule green)
  next
    assume "0 \<le> p \<and> p \<le> q \<and> q \<le> 100"
    then have "p \<le> q" by simp
    then have m: "fst (getProbabilityColor_channels q) \<le> fst (getProbabilityColor_channels p) \<and>
      snd (snd (getProbabilityColor_channels q)) \<le> snd (snd (getProbabilityColor_channels p))"
      by (rule mono)
    from m show "fst (getProbabilityColor_channels q) \<le> fst (getProbabilityColor_channels p)" ..
    from m show "snd (snd (getProbabilityColor_channels q)) \<le>
        snd (snd (getProbabilityColor_channels p))" ..
  qed
qed

theorem getProbabilityColor_gradient_witness:
  "getProbabilityColor 25 = ''rgb(191, 255, 191)'' \<and>
   fst (getProbabilityColor_channels 90) \<le> fst (getProbabilityColor_channels 25) \<and>
   fst (getProbabilityColor_channels 25) = 191 \<and> fst (getProbabilityColor_channels 90) = 25"
proof -
  have shade: "getProbabilityColor 25 = ''rgb(191, 255, 191)''" by code_simp
  have b: "fst (getProbabilityColor_channels 25) = 191" by code_simp
  have c: "fst (getProbabilityColor_channels 90) = 25" by code_simp
  have h: "(0::rat) \<le> 25 \<and> (25::rat) \<le> 90 \<and> (90::rat) \<le> 100" by simp
  note g = getProbabilityColor_gradient [of 25 90]
  from g have "0 \<le> (25::rat) \<and> (25::rat) \<le> 90 \<and> (90::rat) \<le> 100 \<longrightarrow>
      fst (getProbabilityColor_channels 90) \<le> fst (getProbabilityColor_channels 25) \<and>
      snd (snd (getProbabilityColor_channels 90)) \<le> snd (snd (getProbabilityColor_channels 25))"
    by (elim conjE)
  from this h have "fst (getProbabilityColor_channels 90) \<le> fst (getProbabilityColor_channels 25) \<and>
      snd (snd (getProbabilityColor_channels 90)) \<le> snd (snd (getProbabilityColor_channels 25))"
    by (rule mp)
  then have m: "fst (getProbabilityColor_channels 90) \<le> fst (getProbabilityColor_channels 25)" ..
  from shade m b c show ?thesis by (intro conjI)
qed

subsection \<open>Sorting the possibilities\<close>

lemma mset_js_insert: "mset (js_insert cmp x xs) = add_mset x (mset xs)"
  by (induction xs) auto

lemma mset_foldl_js_insert:
  "mset (foldl (\<lambda>acc x. js_insert cmp x acc) acc xs) = mset acc + mset xs"
  by (induction xs arbitrary: acc) (auto simp: mset_js_insert)

lemma mset_js_sort: "mset (js_sort cmp xs) = mset xs"
  by (simp add: js_sort_def mset_foldl_js_insert)

lemma set_js_insert: "set (js_insert cmp x xs) = insert x (set xs)"
  by (induction xs) auto

lemma sorted_js_insert:
  assumes "fst x \<noteq> None" "\<forall>a \<in> set xs. fst a \<noteq> None"
    and "sorted (map (\<lambda>a. the (fst a)) xs)"
  shows "sorted (map (\<lambda>a. the (fst a)) (js_insert compare_number x xs))"
  using assms
proof (induction xs)
  case Nil
  then show ?case by simp
next
  case (Cons y ys)
  then show ?case
    by (auto simp: compare_number_def set_js_insert split: option.splits)
qed

lemma sorted_foldl_js_insert:
  assumes "\<forall>a \<in> set xs. fst a \<noteq> None" "\<forall>a \<in> set acc. fst a \<noteq> None"
    and "sorted (map (\<lambda>a. the (fst a)) acc)"
  shows "sorted (map (\<lambda>a. the (fst a)) (foldl (\<lambda>acc x. js_insert compare_number x acc) acc xs))"
  using assms
proof (induction xs arbitrary: acc)
  case Nil
  then show ?case by simp
next
  case (Cons x xs)
  have "sorted (map (\<lambda>a. the (fst a)) (js_insert compare_number x acc))"
    using Cons.prems by (intro sorted_js_insert) auto
  moreover have "\<forall>a \<in> set (js_insert compare_number x acc). fst a \<noteq> None"
    using Cons.prems by (auto simp: set_js_insert)
  ultimately show ?case using Cons.prems Cons.IH by simp
qed

lemma sorted_js_sort:
  assumes "\<forall>a \<in> set xs. fst a \<noteq> None"
  shows "sorted (map (\<lambda>a. the (fst a)) (js_sort compare_number xs))"
  unfolding js_sort_def using assms by (intro sorted_foldl_js_insert) auto

lemma key_cases:
  assumes "k \<in> set possibility_keys"
  shows "\<exists>n \<in> {1..9}. k = show_int n \<and> parseInt10 k = Some n"
proof -
  have s: "show_int 1 = ''1''" "show_int 2 = ''2''" "show_int 3 = ''3''" "show_int 4 = ''4''"
    "show_int 5 = ''5''" "show_int 6 = ''6''" "show_int 7 = ''7''" "show_int 8 = ''8''"
    "show_int 9 = ''9''"
    by code_simp+
  have p: "parseInt10 ''1'' = Some 1" "parseInt10 ''2'' = Some 2" "parseInt10 ''3'' = Some 3"
    "parseInt10 ''4'' = Some 4" "parseInt10 ''5'' = Some 5" "parseInt10 ''6'' = Some 6"
    "parseInt10 ''7'' = Some 7" "parseInt10 ''8'' = Some 8" "parseInt10 ''9'' = Some 9"
    by code_simp+
  from assms consider "k = ''1''" | "k = ''2''" | "k = ''3''" | "k = ''4''" | "k = ''5''"
    | "k = ''6''" | "k = ''7''" | "k = ''8''" | "k = ''9''"
    unfolding possibility_keys_def by auto
  then show ?thesis
    by cases (use s p in \<open>simp_all\<close>)
qed


lemma key_inj: "inj_on (\<lambda>k. the (parseInt10 k)) (set possibility_keys)"
proof (rule inj_onI)
  fix j k
  assume j: "j \<in> set possibility_keys" and k: "k \<in> set possibility_keys"
    and eq: "the (parseInt10 j) = the (parseInt10 k)"
  from key_cases [OF j] have "j = show_int (the (parseInt10 j))" by auto
  moreover from key_cases [OF k] have "k = show_int (the (parseInt10 k))" by auto
  ultimately show "j = k" using eq by simp
qed

lemma strict_from_sorted_distinct:
  fixes xs :: "(int option \<times> 'p) list"
  assumes none: "\<forall>a \<in> set xs. fst a \<noteq> None"
    and srt: "sorted (map (\<lambda>a. the (fst a)) xs)"
    and dis: "distinct (map (\<lambda>a. the (fst a)) xs)"
  shows "sorted_wrt (\<lambda>a b. \<exists>x y. fst a = Some x \<and> fst b = Some y \<and> x < y) xs"
proof -
  from srt dis have "sorted_wrt (<) (map (\<lambda>a. the (fst a)) xs)"
    by (simp add: strict_sorted_iff)
  then have "sorted_wrt (\<lambda>a b. the (fst a) < the (fst b)) xs"
    by (simp add: sorted_wrt_map)
  then show ?thesis
  proof (rule sorted_wrt_mono_rel [rotated])
    fix a b
    assume "a \<in> set xs" "b \<in> set xs" "the (fst a) < the (fst b)"
    with none show "\<exists>x y. fst a = Some x \<and> fst b = Some y \<and> x < y"
      by (cases "fst a"; cases "fst b") auto
  qed
qed

text \<open>
  C10. For a possibilities object of the data model (distinct keys among \<^verbatim>\<open>"1"\<close> ..
  \<^verbatim>\<open>"9"\<close>), \<^verbatim>\<open>sortPossibilities\<close> returns the pairs in strictly ascending order of the
  candidate value; the list has one pair per entry of the object, and its pairs are exactly
  the pairs \<open>(n, p)\<close> such that the object maps the key that spells \<open>n\<close> to the
  probability \<open>p\<close>.
\<close>

theorem sortPossibilities_ascending:
  assumes wf: "wf_possibilities ps"
  shows "sorted_wrt (\<lambda>a b. \<exists>x y. fst a = Some x \<and> fst b = Some y \<and> x < y)
           (sortPossibilities ps) \<and>
         length (sortPossibilities ps) = length ps \<and>
         set (sortPossibilities ps) =
           {(Some n, p) | n p. n \<in> {1..9} \<and> (show_int n, p) \<in> set ps}"
proof -
  define f :: "string \<times> rat \<Rightarrow> int option \<times> rat"
    where "f = (\<lambda>(number, probability). (parseInt10 number, probability))"
  define key :: "int option \<times> rat \<Rightarrow> int" where "key = (\<lambda>a. the (fst a))"
  have sp: "sortPossibilities ps = js_sort compare_number (map f ps)"
    by (simp add: sortPossibilities_def f_def)
  from wf have dis: "distinct (map fst ps)"
    and keys: "\<forall>k \<in> set (map fst ps). k \<in> set possibility_keys"
    by (simp_all add: wf_possibilities_def list_all_iff)
  have ms: "mset (sortPossibilities ps) = mset (map f ps)"
    by (simp add: sp mset_js_sort)
  have parsed: "\<forall>a \<in> set (map f ps). fst a \<noteq> None"
  proof
    fix a assume "a \<in> set (map f ps)"
    then obtain k p where kp: "(k, p) \<in> set ps" and a: "a = (parseInt10 k, p)"
      by (auto simp: f_def)
    from kp keys have "k \<in> set possibility_keys" by force
    from key_cases [OF this] a show "fst a \<noteq> None" by auto
  qed
  have srt: "sorted (map key (sortPossibilities ps))"
    unfolding sp key_def using parsed by (rule sorted_js_sort)
  have "map key (map f ps) = map (\<lambda>k. the (parseInt10 k)) (map fst ps)"
    by (simp add: key_def f_def case_prod_beta)
  moreover have "distinct (map (\<lambda>k. the (parseInt10 k)) (map fst ps))"
  proof -
    from keys have "set (map fst ps) \<subseteq> set possibility_keys" by blast
    with key_inj have "inj_on (\<lambda>k. the (parseInt10 k)) (set (map fst ps))"
      by (rule inj_on_subset)
    with dis show ?thesis by (subst distinct_map) simp
  qed
  ultimately have "distinct (map key (map f ps))" by (simp only:)
  moreover have "mset (map key (sortPossibilities ps)) = mset (map key (map f ps))"
    using ms by (metis mset_map)
  ultimately have dk: "distinct (map key (sortPossibilities ps))"
    by (metis mset_eq_imp_distinct_iff)
  have set_eq: "set (sortPossibilities ps) = set (map f ps)"
    using ms by (rule mset_eq_setD)
  have none: "\<forall>a \<in> set (sortPossibilities ps). fst a \<noteq> None"
    using parsed set_eq by simp
  have strict: "sorted_wrt (\<lambda>a b. \<exists>x y. fst a = Some x \<and> fst b = Some y \<and> x < y)
      (sortPossibilities ps)"
    using none srt dk unfolding key_def by (rule strict_from_sorted_distinct)
  have len: "length (sortPossibilities ps) = length ps"
    using ms by (metis mset_eq_length length_map)
  have entries: "set (map f ps) = {(Some n, p) | n p. n \<in> {1..9} \<and> (show_int n, p) \<in> set ps}"
  proof (intro set_eqI iffI)
    fix a assume "a \<in> set (map f ps)"
    then obtain k p where kp: "(k, p) \<in> set ps" and a: "a = (parseInt10 k, p)"
      by (auto simp: f_def)
    from kp keys have "k \<in> set possibility_keys" by force
    from key_cases [OF this] obtain n where "n \<in> {1..9}" "k = show_int n" "parseInt10 k = Some n"
      by blast
    with kp a show "a \<in> {(Some n, p) | n p. n \<in> {1..9} \<and> (show_int n, p) \<in> set ps}"
      by auto
  next
    fix a assume "a \<in> {(Some n, p) | n p. n \<in> {1..9} \<and> (show_int n, p) \<in> set ps}"
    then obtain n p where a: "a = (Some n, p)" and n: "n \<in> {1..9}"
      and kp: "(show_int n, p) \<in> set ps"
      by blast
    from kp keys have "show_int n \<in> set possibility_keys" by force
    from key_cases [OF this] obtain m where m: "m \<in> {1..9}" "show_int n = show_int m"
      "parseInt10 (show_int n) = Some m"
      by blast
    have "parseInt10 (show_int n) = Some n"
    proof -
      from n have "n \<in> set [1, 2, 3, 4, 5, 6, 7, 8, 9]"
        by auto
      moreover have "parseInt10 (show_int 1) = Some 1" "parseInt10 (show_int 2) = Some 2"
        "parseInt10 (show_int 3) = Some 3" "parseInt10 (show_int 4) = Some 4"
        "parseInt10 (show_int 5) = Some 5" "parseInt10 (show_int 6) = Some 6"
        "parseInt10 (show_int 7) = Some 7" "parseInt10 (show_int 8) = Some 8"
        "parseInt10 (show_int 9) = Some 9"
        by code_simp+
      ultimately show ?thesis by auto
    qed
    then have "f (show_int n, p) = a" by (simp add: f_def a)
    with kp show "a \<in> set (map f ps)" by force
  qed
  from strict len set_eq entries show ?thesis by simp
qed

theorem sortPossibilities_ascending_witness:
  "wf_possibilities [(''7'', 20), (''2'', 50), (''5'', 30)] \<and>
   sortPossibilities [(''7'', 20), (''2'', 50), (''5'', 30)] =
     [(Some 2, 50), (Some 5, 30), (Some 7, 20)] \<and>
   sorted_wrt (\<lambda>a b. \<exists>x y. fst a = Some x \<and> fst b = Some y \<and> x < y)
     (sortPossibilities [(''7'', 20), (''2'', 50), (''5'', 30)])"
proof -
  have wf: "wf_possibilities [(''7'', 20), (''2'', 50), (''5'', 30)]"
    by (simp add: wf_possibilities_def possibility_keys_def)
  have ev: "sortPossibilities [(''7'', 20), (''2'', 50), (''5'', 30)] =
     [(Some 2, 50), (Some 5, 30), (Some 7, 20)]"
    by code_simp
  from sortPossibilities_ascending [OF wf] wf ev show ?thesis by blast
qed

subsection \<open>The number-selection handler\<close>

lemma handleNumberSelection_fixed:
  assumes "selectedCell st = Some (row, col)" "cell_at (board st) row col = Some c"
    "cell_value c \<noteq> None"
  shows "handleNumberSelection st numbers =
     Inr (st\<lparr>message := Some (''Cell ('' @ show_nat row @ '', '' @ show_nat col @
                              '') is already fixed and cannot be changed.'')\<rparr>, None)"
  using assms by (simp add: handleNumberSelection_def)

lemma handleNumberSelection_superposition:
  assumes "selectedCell st = Some (row, col)" "cell_at (board st) row col = Some c"
    "cell_value c = None" "cell_possibilities c = Some ps"
  shows "handleNumberSelection st numbers =
     (if validNumbers ps numbers = [] then
        Inr (st\<lparr>message := Some ''Selected numbers are not valid for this cell!''\<rparr>, None)
      else
        Inr ((if length (validNumbers ps numbers) \<noteq> length numbers then
                st\<lparr>message := Some (''Only '' @ join '', '' (map show_nat (validNumbers ps numbers)) @
                                        '' are valid for this cell.'')\<rparr>
              else st)\<lparr>loading := True\<rparr>,
             Some (assign_request row col (validNumbers ps numbers))))"
  using assms by (simp add: handleNumberSelection_def Let_def assignCellValues_def)

lemma handleNumberSelection_request:
  assumes "handleNumberSelection st numbers = Inr (st', Some req)"
  shows "\<exists>row col c ps. selectedCell st = Some (row, col) \<and>
           cell_at (board st) row col = Some c \<and> cell_value c = None \<and>
           cell_possibilities c = Some ps \<and> validNumbers ps numbers \<noteq> [] \<and>
           req = assign_request row col (validNumbers ps numbers)"
  using assms
  by (auto simp: handleNumberSelection_def Let_def assignCellValues_def
      split: option.splits if_splits prod.splits)

lemma example_cell_at: "cell_at (board (example_state c)) 2 3 = Some c"
  by (simp add: cell_at_def example_state_def)

lemma example_selected: "selectedCell (example_state c) = Some (2, 3)"
  by (simp add: example_state_def)

lemma example_current:
  "currentPossibilities [(''2'', 50), (''5'', 50)] = [JsNum 2, JsNum 5]"
  by code_simp

lemma show_nat_small: "show_nat 1 = ''1''" "show_nat 2 = ''2''" "show_nat 3 = ''3''"
  by code_simp+

text \<open>
  C8. When the selected cell has a defined \<^verbatim>\<open>value\<close> (it is Fixed), the
  number-selection handler sends no request and leaves the board, the selection, the
  loading flag and the difficulty as they are; it only sets the message that the cell is
  already fixed.
\<close>

theorem handleNumberSelection_fixed_cell:
  assumes sel: "selectedCell st = Some (row, col)"
    and cell: "cell_at (board st) row col = Some c"
    and fixed: "cell_value c \<noteq> None"
  shows "\<exists>st'. handleNumberSelection st numbers = Inr (st', None) \<and>
           board st' = board st \<and> selectedCell st' = selectedCell st \<and>
           loading st' = loading st \<and> difficulty st' = difficulty st \<and>
           message st' = Some (''Cell ('' @ show_nat row @ '', '' @ show_nat col @
                               '') is already fixed and cannot be changed.'')"
proof -
  let ?st' = "st\<lparr>message := Some (''Cell ('' @ show_nat row @ '', '' @ show_nat col @
                              '') is already fixed and cannot be changed.'')\<rparr>"
  have "handleNumberSelection st numbers = Inr (?st', None)"
    using sel cell fixed by (rule handleNumberSelection_fixed)
  moreover have "board ?st' = board st" "selectedCell ?st' = selectedCell st"
    "loading ?st' = loading st" "difficulty ?st' = difficulty st"
    by simp_all
  ultimately show ?thesis by (intro exI [of _ ?st']) simp
qed

theorem handleNumberSelection_fixed_cell_witness:
  "\<exists>st'. handleNumberSelection (example_state example_fixed_cell) [4, 5] = Inr (st', None) \<and>
     board st' = board (example_state example_fixed_cell) \<and>
     message st' = Some ''Cell (2, 3) is already fixed and cannot be changed.''"
proof -
  have fixed: "cell_value example_fixed_cell \<noteq> None"
    by (simp add: example_fixed_cell_def)
  from handleNumberSelection_fixed_cell [OF example_selected example_cell_at fixed, of "[4, 5]"]
  show ?thesis by (auto simp: show_nat_small)
qed

lemma validNumbers_subset:
  "n \<in> set (validNumbers ps numbers) \<Longrightarrow>
   n \<in> set numbers \<and> JsNum (of_nat n) \<in> set (currentPossibilities ps)"
  by (simp add: validNumbers_def)

text \<open>
  The keys of a possibilities object of the data model are the decimal texts of the
  numbers 1 to 9, and \<^verbatim>\<open>Number\<close> reads each key back as its number. So a number is
  among \<open>currentPossibilities\<close> exactly when its text is a key of the object.
\<close>

lemma show_nat_digit: "n < 10 \<Longrightarrow> show_nat n = [digit_char n]"
  by (subst show_nat.simps) simp

lemma show_nat_not_empty: "show_nat n \<noteq> []"
  by (subst show_nat.simps) simp

lemma show_nat_long:
  assumes "10 \<le> n"
  shows "2 \<le> length (show_nat n)"
proof -
  from assms have "show_nat n = show_nat (n div 10) @ [digit_char n]"
    by (subst show_nat.simps) simp
  moreover have "1 \<le> length (show_nat (n div 10))"
    using show_nat_not_empty [of "n div 10"] by (cases "show_nat (n div 10)") simp_all
  ultimately show ?thesis by simp
qed

lemma digit_char_code:
  assumes "n < 10"
  shows "(of_char (digit_char n) :: nat) = 48 + n"
proof -
  from assms have "n \<in> set [0, 1, 2, 3, 4, 5, 6, 7, 8, 9]" by auto
  then show ?thesis by (auto simp: digit_char_def)
qed

lemma show_nat_eq_digit:
  assumes d: "d < 10" and eq: "show_nat n = show_nat d"
  shows "n = d"
proof -
  from d have sd: "show_nat d = [digit_char d]" by (rule show_nat_digit)
  have "n < 10"
  proof (rule ccontr)
    assume "\<not> n < 10"
    then have "2 \<le> length (show_nat n)" by (intro show_nat_long) simp
    with eq sd show False by simp
  qed
  then have sn: "show_nat n = [digit_char n]" by (rule show_nat_digit)
  from eq sn sd have "digit_char n = digit_char d" by simp
  then have "(of_char (digit_char n) :: nat) = of_char (digit_char d)" by simp
  with \<open>n < 10\<close> d show ?thesis by (simp add: digit_char_code)
qed

text \<open>
  \<^verbatim>\<open>Number\<close> on spellings outside the data model: white space, a fraction, a
  hexadecimal literal, an exponent and a sign are read; the empty string is 0; a digit
  string beyond \<open>2 ^ 53\<close> is rounded to a double.
\<close>

lemma js_Number_space: "js_Number '' 5'' = JsNum 5"
  by code_simp

lemma js_Number_fraction: "js_Number ''5.0'' = JsNum 5"
  by code_simp

lemma js_Number_hex: "js_Number ''0x5'' = JsNum 5"
  by code_simp

lemma js_Number_exponent: "js_Number ''5e0'' = JsNum 5"
  by code_simp

lemma js_Number_sign: "js_Number ''+5'' = JsNum 5"
  by code_simp

lemma js_Number_empty: "js_Number [] = JsNum 0"
  by code_simp

lemma js_Number_rounded: "js_Number ''9007199254740993'' = JsNum 9007199254740992"
  by code_simp

lemma js_Number_not_a_number: "js_Number ''five'' = JsNaN"
  by code_simp

lemma validNumbers_spaced_key: "validNumbers [('' 5'', 100)] [5] = [5]"
  by (simp add: validNumbers_def currentPossibilities_def js_Number_space)

lemma js_Number_1: "js_Number ''1'' = JsNum 1"
  by code_simp

lemma js_Number_2: "js_Number ''2'' = JsNum 2"
  by code_simp

lemma js_Number_3: "js_Number ''3'' = JsNum 3"
  by code_simp

lemma js_Number_4: "js_Number ''4'' = JsNum 4"
  by code_simp

lemma js_Number_5: "js_Number ''5'' = JsNum 5"
  by code_simp

lemma js_Number_6: "js_Number ''6'' = JsNum 6"
  by code_simp

lemma js_Number_7: "js_Number ''7'' = JsNum 7"
  by code_simp

lemma js_Number_8: "js_Number ''8'' = JsNum 8"
  by code_simp

lemma js_Number_9: "js_Number ''9'' = JsNum 9"
  by code_simp

lemma show_nat_keys:
  "show_nat 1 = ''1''" "show_nat 2 = ''2''" "show_nat 3 = ''3''" "show_nat 4 = ''4''"
  "show_nat 5 = ''5''" "show_nat 6 = ''6''" "show_nat 7 = ''7''" "show_nat 8 = ''8''"
  "show_nat 9 = ''9''"
  by (simp_all add: show_nat_digit digit_char_def)

lemma key_number:
  assumes "k \<in> set possibility_keys"
  shows "\<exists>d. 1 \<le> d \<and> d \<le> 9 \<and> k = show_nat d \<and> js_Number k = JsNum (of_nat d)"
proof -
  from assms consider "k = ''1''" | "k = ''2''" | "k = ''3''" | "k = ''4''" | "k = ''5''"
    | "k = ''6''" | "k = ''7''" | "k = ''8''" | "k = ''9''"
    unfolding possibility_keys_def by auto
  then show ?thesis
  proof cases
    case 1 then show ?thesis using show_nat_keys(1) js_Number_1 by (intro exI [of _ 1]) simp
  next
    case 2 then show ?thesis using show_nat_keys(2) js_Number_2 by (intro exI [of _ 2]) simp
  next
    case 3 then show ?thesis using show_nat_keys(3) js_Number_3 by (intro exI [of _ 3]) simp
  next
    case 4 then show ?thesis using show_nat_keys(4) js_Number_4 by (intro exI [of _ 4]) simp
  next
    case 5 then show ?thesis using show_nat_keys(5) js_Number_5 by (intro exI [of _ 5]) simp
  next
    case 6 then show ?thesis using show_nat_keys(6) js_Number_6 by (intro exI [of _ 6]) simp
  next
    case 7 then show ?thesis using show_nat_keys(7) js_Number_7 by (intro exI [of _ 7]) simp
  next
    case 8 then show ?thesis using show_nat_keys(8) js_Number_8 by (intro exI [of _ 8]) simp
  next
    case 9 then show ?thesis using show_nat_keys(9) js_Number_9 by (intro exI [of _ 9]) simp
  qed
qed

lemma current_iff_key:
  assumes wf: "wf_possibilities ps"
  shows "JsNum (of_nat n) \<in> set (currentPossibilities ps) \<longleftrightarrow> show_nat n \<in> set (map fst ps)"
proof
  assume "JsNum (of_nat n) \<in> set (currentPossibilities ps)"
  then have "JsNum (of_nat n) \<in> js_Number ` set (map fst ps)"
    by (simp only: currentPossibilities_def set_map)
  then obtain k where k: "k \<in> set (map fst ps)" and num: "JsNum (of_nat n) = js_Number k"
    by (rule imageE)
  from wf k have "k \<in> set possibility_keys"
    by (auto simp: wf_possibilities_def list_all_iff)
  from key_number [OF this] obtain d where d: "k = show_nat d" "js_Number k = JsNum (of_nat d)"
    by blast
  from d(2) num have "(of_nat d :: rat) = of_nat n" by simp
  then have "d = n" by simp
  with d(1) k show "show_nat n \<in> set (map fst ps)" by simp
next
  assume key: "show_nat n \<in> set (map fst ps)"
  with wf have "show_nat n \<in> set possibility_keys"
    by (auto simp: wf_possibilities_def list_all_iff)
  from key_number [OF this] obtain d where d: "d \<le> 9" "show_nat n = show_nat d"
    "js_Number (show_nat n) = JsNum (of_nat d)"
    by blast
  from d(1) have "d < 10" by simp
  from this d(2) have "n = d" by (rule show_nat_eq_digit)
  with d(3) have "js_Number (show_nat n) = JsNum (of_nat n)" by simp
  with key show "JsNum (of_nat n) \<in> set (currentPossibilities ps)"
    by (force simp: currentPossibilities_def)
qed

lemma validNumbers_keys:
  assumes "wf_possibilities ps"
  shows "validNumbers ps numbers = filter (\<lambda>n. show_nat n \<in> set (map fst ps)) numbers"
  unfolding validNumbers_def using current_iff_key [OF assms] by simp

lemma example_valid: "validNumbers [(''2'', 50), (''5'', 50)] [2, 7] = [2]"
  by (simp add: validNumbers_def example_current)

lemma example_valid_none: "validNumbers [(''2'', 50), (''5'', 50)] [7] = []"
  by (simp add: validNumbers_def example_current)

lemma example_cell_fields:
  "cell_value example_cell = None"
  "cell_possibilities example_cell = Some [(''2'', 50), (''5'', 50)]"
  by (simp_all add: example_cell_def)

lemma example_wf: "wf_possibilities [(''2'', 50), (''5'', 50)]"
  by (simp add: wf_possibilities_def possibility_keys_def)

text \<open>
  C1, as stated, fails: with the cell's possibilities 2 and 5 and the selection 2, 7 the
  handler sends an \<^verbatim>\<open>/assign\<close> request with the reduced list 2.
\<close>

theorem selection_with_invalid_number_counterexample:
  "wf_possibilities [(''2'', 50), (''5'', 50)] \<and>
   show_nat 7 \<notin> set (map fst [(''2'', 50::rat), (''5'', 50)]) \<and>
   cell_at (board (example_state example_cell)) 2 3 = Some example_cell \<and>
   cell_possibilities example_cell = Some [(''2'', 50), (''5'', 50)] \<and>
   handleNumberSelection (example_state example_cell) [2, 7] =
     Inr ((example_state example_cell)
            \<lparr>message := Some ''Only 2 are valid for this cell.'', loading := True\<rparr>,
          Some (assign_request 2 3 [2]))"
proof -
  have seven: "show_nat 7 = ''7''" by code_simp
  have outside: "show_nat 7 \<notin> set (map fst [(''2'', 50::rat), (''5'', 50)])"
    unfolding seven by simp
  have sent: "handleNumberSelection (example_state example_cell) [2, 7] =
     Inr ((example_state example_cell)
            \<lparr>message := Some ''Only 2 are valid for this cell.'', loading := True\<rparr>,
          Some (assign_request 2 3 [2]))"
    by (simp add: handleNumberSelection_superposition [OF example_selected example_cell_at
          example_cell_fields] example_valid show_nat_small)
  from example_wf outside example_cell_at [of example_cell] example_cell_fields(2) sent
  show ?thesis by (intro conjI)
qed

text \<open>
  C1, amended. The selected cell is a superposition cell whose possibilities object is one
  of the data model (keys among "1" .. "9"), and the selection holds a number whose text
  is not a key of the object. The handler drops every such number: if no selected number
  is left it sends no request and shows "Selected numbers are not valid for this cell!";
  otherwise it sets the message "Only ... are valid for this cell." and sends one
  \<^verbatim>\<open>/assign\<close> request whose candidates are the selected numbers that are keys of the
  object, in the order of the selection.
\<close>

theorem selection_with_invalid_number:
  assumes sel: "selectedCell st = Some (row, col)"
    and cell: "cell_at (board st) row col = Some c"
    and super: "cell_value c = None" "cell_possibilities c = Some ps"
    and wf: "wf_possibilities ps"
    and bad: "n \<in> set numbers" "show_nat n \<notin> set (map fst ps)"
  shows "(filter (\<lambda>m. show_nat m \<in> set (map fst ps)) numbers = [] \<longrightarrow>
            handleNumberSelection st numbers =
              Inr (st\<lparr>message := Some ''Selected numbers are not valid for this cell!''\<rparr>, None)) \<and>
         (filter (\<lambda>m. show_nat m \<in> set (map fst ps)) numbers \<noteq> [] \<longrightarrow>
            handleNumberSelection st numbers =
              Inr (st\<lparr>message :=
                       Some (''Only '' @
                             join '', ''
                               (map show_nat
                                  (filter (\<lambda>m. show_nat m \<in> set (map fst ps)) numbers)) @
                             '' are valid for this cell.''),
                      loading := True\<rparr>,
                   Some (assign_request row col
                           (filter (\<lambda>m. show_nat m \<in> set (map fst ps)) numbers))) \<and>
            n \<notin> set (filter (\<lambda>m. show_nat m \<in> set (map fst ps)) numbers))"
proof -
  let ?kept = "filter (\<lambda>m. show_nat m \<in> set (map fst ps)) numbers"
  have valid: "validNumbers ps numbers = ?kept"
    using wf by (rule validNumbers_keys)
  have "length ?kept < length numbers"
    using bad by (meson length_filter_less)
  then have shorter: "length ?kept \<noteq> length numbers" by simp
  have dropped: "n \<notin> set ?kept" using bad(2) by simp
  have "handleNumberSelection st numbers =
     (if ?kept = [] then
        Inr (st\<lparr>message := Some ''Selected numbers are not valid for this cell!''\<rparr>, None)
      else
        Inr (st\<lparr>message := Some (''Only '' @ join '', '' (map show_nat ?kept) @
                                        '' are valid for this cell.'')\<rparr>\<lparr>loading := True\<rparr>,
             Some (assign_request row col ?kept)))"
    using handleNumberSelection_superposition [OF sel cell super, of numbers] shorter
    unfolding valid by simp
  with dropped show ?thesis by simp
qed

theorem selection_with_invalid_number_witness:
  "handleNumberSelection (example_state example_cell) [7] =
     Inr ((example_state example_cell)
            \<lparr>message := Some ''Selected numbers are not valid for this cell!''\<rparr>, None) \<and>
   handleNumberSelection (example_state example_cell) [2, 7] =
     Inr ((example_state example_cell)
            \<lparr>message := Some ''Only 2 are valid for this cell.'', loading := True\<rparr>,
          Some (assign_request 2 3 [2]))"
proof -
  have texts: "show_nat 7 = ''7''" "show_nat 2 = ''2''" by code_simp+
  have bad: "show_nat 7 \<notin> set (map fst [(''2'', 50::rat), (''5'', 50)])"
    unfolding texts by simp
  have a: "(7::nat) \<in> set [7]" and b: "(7::nat) \<in> set [2, 7]" by simp_all
  have none: "filter (\<lambda>m. show_nat m \<in> set (map fst [(''2'', 50::rat), (''5'', 50)])) [7] = []"
    by (simp add: texts)
  have one: "filter (\<lambda>m. show_nat m \<in> set (map fst [(''2'', 50::rat), (''5'', 50)])) [2, 7] = [2]"
    by (simp add: texts)
  from selection_with_invalid_number
      [OF example_selected example_cell_at example_cell_fields example_wf a bad]
  have first: "handleNumberSelection (example_state example_cell) [7] =
     Inr ((example_state example_cell)
            \<lparr>message := Some ''Selected numbers are not valid for this cell!''\<rparr>, None)"
    unfolding none by simp
  from selection_with_invalid_number
      [OF example_selected example_cell_at example_cell_fields example_wf b bad]
  have second: "handleNumberSelection (example_state example_cell) [2, 7] =
     Inr ((example_state example_cell)
            \<lparr>message := Some ''Only 2 are valid for this cell.'', loading := True\<rparr>,
          Some (assign_request 2 3 [2]))"
    unfolding one by (simp add: texts)
  from first second show ?thesis ..
qed

text \<open>
  How a selection with a number outside the candidate set reaches the handler: the panel
  keeps its list when another cell is selected. On the board of \<open>example_mixed_state\<close>
  the cells of row 0 have the possibilities 2 and 7, the other cells 2 and 5. With the
  cell (0, 4) selected the buttons 2 and 7 are available and toggling them gives the list
  2, 7; with the cell (2, 3) selected afterwards, "Assign Selected Numbers" sends 2 only.
\<close>

lemma example_mixed_cells:
  "cell_at (board (example_mixed_state sel)) 0 4 = Some example_other_cell"
  "cell_at (board (example_mixed_state sel)) 2 3 = Some example_cell"
  by (simp_all add: cell_at_def example_mixed_state_def)

lemma invalid_selection_reachable:
  shows "isNumberAvailable (selectedCell (example_mixed_state (0, 4)))
           (cell_at (board (example_mixed_state (0, 4))) 0 4) 2 = Inr True"
    and "isNumberAvailable (selectedCell (example_mixed_state (0, 4)))
           (cell_at (board (example_mixed_state (0, 4))) 0 4) 7 = Inr True"
    and "handleNumberToggle (handleNumberToggle [] 2) 7 = [2, 7]"
    and "\<exists>st3. click_assign (example_mixed_state (2, 3)) [2, 7] =
           Inr (Called (st3, Some (assign_request 2 3 [2])), [])"
proof -
  have other: "cell_value example_other_cell = None"
    "cell_possibilities example_other_cell = Some [(''2'', 40), (''7'', 60)]"
    by (simp_all add: example_other_cell_def)
  have cur: "currentPossibilities [(''2'', 40), (''7'', 60)] = [JsNum 2, JsNum 7]"
    by code_simp
  have s1: "selectedCell (example_mixed_state (0, 4)) = Some (0, 4)"
    and s2: "selectedCell (example_mixed_state (2, 3)) = Some (2, 3)"
    by (simp_all add: example_mixed_state_def)
  show "isNumberAvailable (selectedCell (example_mixed_state (0, 4)))
           (cell_at (board (example_mixed_state (0, 4))) 0 4) 2 = Inr True"
    by (simp add: isNumberAvailable_def s1 example_mixed_cells other cur)
  show "isNumberAvailable (selectedCell (example_mixed_state (0, 4)))
           (cell_at (board (example_mixed_state (0, 4))) 0 4) 7 = Inr True"
    by (simp add: isNumberAvailable_def s1 example_mixed_cells other cur)
  show "handleNumberToggle (handleNumberToggle [] 2) 7 = [2, 7]"
    by (simp add: handleNumberToggle_def)
  have "handleNumberSelection (example_mixed_state (2, 3)) [2, 7] =
      Inr ((example_mixed_state (2, 3))
             \<lparr>message := Some ''Only 2 are valid for this cell.'', loading := True\<rparr>,
           Some (assign_request 2 3 [2]))"
    by (simp add: handleNumberSelection_superposition
          [OF s2 example_mixed_cells(2) example_cell_fields] example_valid show_nat_small)
  then show "\<exists>st3. click_assign (example_mixed_state (2, 3)) [2, 7] =
      Inr (Called (st3, Some (assign_request 2 3 [2])), [])"
    by (simp add: click_assign_def handleAssign_def)
qed

subsection \<open>Requests and responses\<close>

text \<open>
  C3. After an \<^verbatim>\<open>/assign\<close> response: when \<^verbatim>\<open>success\<close> is true the board state is
  the response's \<^verbatim>\<open>board\<close> field and the message is its \<^verbatim>\<open>message\<close> field; when it is
  false the message is "Error assigning values: " followed by the \<^verbatim>\<open>detail\<close> field and
  the board state is the one before.
\<close>

theorem assignCellValues_done_response:
  "(a_success data \<longrightarrow>
      board (assignCellValues_done st (Inr data)) = a_board data \<and>
      message (assignCellValues_done st (Inr data)) = a_message data) \<and>
   (\<not> a_success data \<longrightarrow>
      message (assignCellValues_done st (Inr data)) =
        Some (''Error assigning values: '' @ js_string (a_detail data)) \<and>
      (a_detail data = Some d \<longrightarrow>
         message (assignCellValues_done st (Inr data)) = Some (''Error assigning values: '' @ d)) \<and>
      board (assignCellValues_done st (Inr data)) = board st)"
proof (cases "a_success data")
  case True
  then have "assignCellValues_done st (Inr data) =
      st\<lparr>board := a_board data, message := a_message data, loading := False\<rparr>"
    by (simp add: assignCellValues_done_def)
  with True show ?thesis by simp
next
  case False
  then have "assignCellValues_done st (Inr data) =
      st\<lparr>message := Some (''Error assigning values: '' @ js_string (a_detail data)),
         loading := False\<rparr>"
    by (simp add: assignCellValues_done_def)
  with False show ?thesis by (simp add: js_string_def)
qed

theorem assignCellValues_done_response_witness:
  "board (assignCellValues_done (example_state example_cell)
      (Inr \<lparr>a_success = True, a_board = Some (replicate 9 (replicate 9 example_fixed_cell)),
            a_message = Some ''Cell collapsed'', a_detail = None\<rparr>)) =
     Some (replicate 9 (replicate 9 example_fixed_cell)) \<and>
   message (assignCellValues_done (example_state example_cell)
      (Inr \<lparr>a_success = True, a_board = Some (replicate 9 (replicate 9 example_fixed_cell)),
            a_message = Some ''Cell collapsed'', a_detail = None\<rparr>)) = Some ''Cell collapsed'' \<and>
   message (assignCellValues_done (example_state example_cell)
      (Inr \<lparr>a_success = False, a_board = None, a_message = None,
            a_detail = Some ''Conflict''\<rparr>)) = Some ''Error assigning values: Conflict'' \<and>
   board (assignCellValues_done (example_state example_cell)
      (Inr \<lparr>a_success = False, a_board = None, a_message = None,
            a_detail = Some ''Conflict''\<rparr>)) = board (example_state example_cell)"
  using assignCellValues_done_response
      [of "\<lparr>a_success = True, a_board = Some (replicate 9 (replicate 9 example_fixed_cell)),
            a_message = Some ''Cell collapsed'', a_detail = None\<rparr>"
          "example_state example_cell" "''Conflict''"]
    assignCellValues_done_response
      [of "\<lparr>a_success = False, a_board = None, a_message = None, a_detail = Some ''Conflict''\<rparr>"
          "example_state example_cell" "''Conflict''"]
  by (simp add: js_string_def)

text \<open>
  C4. A request that \<^verbatim>\<open>assignCellValues\<close> sends is a POST to \<^verbatim>\<open>/assign\<close> whose body
  is the object with the fields \<^verbatim>\<open>row\<close>, \<^verbatim>\<open>col\<close> and \<^verbatim>\<open>candidates\<close>, in this order
  and with no other field; a request sent by the number-selection handler, its only
  caller, has the coordinates of the selected cell and the validated numbers.
\<close>

theorem assign_request_shape:
  "req_method (snd (assignCellValues st row col candidates)) = ''POST'' \<and>
   req_url (snd (assignCellValues st row col candidates)) = ''http://localhost:8000/assign'' \<and>
   req_body (snd (assignCellValues st row col candidates)) =
     Some (JObj [(''row'', JNum row), (''col'', JNum col),
                 (''candidates'', JArr (map JNum candidates))]) \<and>
   (handleNumberSelection st numbers = Inr (st', Some req) \<longrightarrow>
      (\<exists>r c cl ps. selectedCell st = Some (r, c) \<and> cell_at (board st) r c = Some cl \<and>
         cell_possibilities cl = Some ps \<and>
         req = snd (assignCellValues st r c (validNumbers ps numbers)) \<and>
         req_body req =
           Some (JObj [(''row'', JNum r), (''col'', JNum c),
                       (''candidates'', JArr (map JNum (validNumbers ps numbers)))])))"
proof -
  have shape: "snd (assignCellValues s r c cs) = assign_request r c cs" for s r c cs
    by (simp add: assignCellValues_def)
  have fields: "req_method (assign_request r c cs) = ''POST''"
    "req_url (assign_request r c cs) = ''http://localhost:8000/assign''"
    "req_body (assign_request r c cs) =
       Some (JObj [(''row'', JNum r), (''col'', JNum c), (''candidates'', JArr (map JNum cs))])"
    for r c cs
    by (simp_all add: assign_request_def)
  have handler: "\<exists>r c cl ps. selectedCell st = Some (r, c) \<and> cell_at (board st) r c = Some cl \<and>
         cell_possibilities cl = Some ps \<and>
         req = snd (assignCellValues st r c (validNumbers ps numbers)) \<and>
         req_body req =
           Some (JObj [(''row'', JNum r), (''col'', JNum c),
                       (''candidates'', JArr (map JNum (validNumbers ps numbers)))])"
    if sent: "handleNumberSelection st numbers = Inr (st', Some req)"
  proof -
    from handleNumberSelection_request [OF sent] obtain r c cl ps where
      h: "selectedCell st = Some (r, c)" "cell_at (board st) r c = Some cl"
        "cell_possibilities cl = Some ps" "req = assign_request r c (validNumbers ps numbers)"
      by blast
    then show ?thesis by (auto simp: shape fields)
  qed
  from handler show ?thesis by (simp add: shape fields)
qed

theorem assign_request_shape_witness:
  "handleNumberSelection (example_state example_cell) [5, 2] =
     Inr ((example_state example_cell)\<lparr>loading := True\<rparr>, Some (assign_request 2 3 [5, 2])) \<and>
   req_body (assign_request 2 3 [5, 2]) =
     Some (JObj [(''row'', JNum 2), (''col'', JNum 3),
                 (''candidates'', JArr [JNum 5, JNum 2])]) \<and>
   (\<exists>r c cl ps. selectedCell (example_state example_cell) = Some (r, c) \<and>
      cell_at (board (example_state example_cell)) r c = Some cl \<and>
      cell_possibilities cl = Some ps \<and>
      assign_request 2 3 [5, 2] =
        snd (assignCellValues (example_state example_cell) r c (validNumbers ps [5, 2])))"
proof -
  have v: "validNumbers [(''2'', 50), (''5'', 50)] [5, 2] = [5, 2]"
    by (simp add: validNumbers_def example_current)
  have run: "handleNumberSelection (example_state example_cell) [5, 2] =
     Inr ((example_state example_cell)\<lparr>loading := True\<rparr>, Some (assign_request 2 3 [5, 2]))"
    by (simp add: handleNumberSelection_superposition [OF example_selected example_cell_at
          example_cell_fields] v)
  have body: "req_body (assign_request 2 3 [5, 2]) =
     Some (JObj [(''row'', JNum 2), (''col'', JNum 3),
                 (''candidates'', JArr [JNum 5, JNum 2])])"
    by (simp add: assign_request_def)
  from assign_request_shape
    [of "example_state example_cell" 2 3 "[5, 2]" "[5, 2]"
        "(example_state example_cell)\<lparr>loading := True\<rparr>" "assign_request 2 3 [5, 2]"] run
  have "\<exists>r c cl ps. selectedCell (example_state example_cell) = Some (r, c) \<and>
      cell_at (board (example_state example_cell)) r c = Some cl \<and>
      cell_possibilities cl = Some ps \<and>
      assign_request 2 3 [5, 2] =
        snd (assignCellValues (example_state example_cell) r c (validNumbers ps [5, 2]))"
    by blast
  with run body show ?thesis by blast
qed



subsection \<open>What reaches the server\<close>

text \<open>
  C9. A request sent by a click on "Assign Selected Numbers", or by the handler called
  with any list, goes out for a selected superposition cell and has a non-empty candidates
  list of selected numbers; when the cell's possibilities object is one of the data model
  (keys among "1" .. "9"), the candidates are the selected numbers whose text is a key of
  the object, so every candidate is a member of the cell's possibilities. The panel blocks
  an empty selection (it alerts and calls nothing); the handler blocks a selection none of
  whose numbers is a key of the object (it sends nothing).
\<close>

theorem assign_candidates_valid:
  "(click_assign st selectedNumbers = Inr (Called (st', Some req), sel') \<or>
    handleNumberSelection st selectedNumbers = Inr (st', Some req) \<longrightarrow>
      (\<exists>row col c ps candidates.
         selectedCell st = Some (row, col) \<and> cell_at (board st) row col = Some c \<and>
         cell_value c = None \<and> cell_possibilities c = Some ps \<and>
         req = assign_request row col candidates \<and> candidates \<noteq> [] \<and>
         (\<forall>n \<in> set candidates. n \<in> set selectedNumbers) \<and>
         (wf_possibilities ps \<longrightarrow>
            candidates = filter (\<lambda>n. show_nat n \<in> set (map fst ps)) selectedNumbers \<and>
            (\<forall>n \<in> set candidates. show_nat n \<in> set (map fst ps))))) \<and>
   click_assign st [] = Inr (Alert ''Please select at least one number!'', []) \<and>
   (selectedCell st = Some (r, k) \<and> cell_at (board st) r k = Some cl \<and>
    cell_value cl = None \<and> cell_possibilities cl = Some qs \<and> wf_possibilities qs \<and>
    (\<forall>n \<in> set selectedNumbers. show_nat n \<notin> set (map fst qs)) \<longrightarrow>
      handleNumberSelection st selectedNumbers =
        Inr (st\<lparr>message := Some ''Selected numbers are not valid for this cell!''\<rparr>, None))"
proof -
  have sent: "\<exists>row col c ps candidates.
         selectedCell st = Some (row, col) \<and> cell_at (board st) row col = Some c \<and>
         cell_value c = None \<and> cell_possibilities c = Some ps \<and>
         req = assign_request row col candidates \<and> candidates \<noteq> [] \<and>
         (\<forall>n \<in> set candidates. n \<in> set selectedNumbers) \<and>
         (wf_possibilities ps \<longrightarrow>
            candidates = filter (\<lambda>n. show_nat n \<in> set (map fst ps)) selectedNumbers \<and>
            (\<forall>n \<in> set candidates. show_nat n \<in> set (map fst ps)))"
    if h: "handleNumberSelection st selectedNumbers = Inr (st', Some req)"
  proof -
    from handleNumberSelection_request [OF h] obtain row col c ps where
      cellfacts: "selectedCell st = Some (row, col)" "cell_at (board st) row col = Some c"
        "cell_value c = None" "cell_possibilities c = Some ps"
      and nonempty: "validNumbers ps selectedNumbers \<noteq> []"
      and req: "req = assign_request row col (validNumbers ps selectedNumbers)"
      by blast
    let ?cands = "validNumbers ps selectedNumbers"
    have selected: "\<forall>n \<in> set ?cands. n \<in> set selectedNumbers"
      using validNumbers_subset by blast
    have keys: "?cands = filter (\<lambda>n. show_nat n \<in> set (map fst ps)) selectedNumbers \<and>
        (\<forall>n \<in> set ?cands. show_nat n \<in> set (map fst ps))"
      if wf: "wf_possibilities ps"
    proof -
      have eq: "?cands = filter (\<lambda>n. show_nat n \<in> set (map fst ps)) selectedNumbers"
        using wf by (rule validNumbers_keys)
      then have "\<forall>n \<in> set ?cands. show_nat n \<in> set (map fst ps)"
        by (simp only: set_filter) blast
      with eq show ?thesis ..
    qed
    from cellfacts req nonempty selected keys show ?thesis by blast
  qed
  have click: "handleNumberSelection st selectedNumbers = Inr (st', Some req)"
    if "click_assign st selectedNumbers = Inr (Called (st', Some req), sel')"
    using that
    by (auto simp: click_assign_def handleAssign_def split: if_splits sum.splits)
  have empty: "click_assign st [] = Inr (Alert ''Please select at least one number!'', [])"
    by (simp add: click_assign_def handleAssign_def)
  have blocked: "handleNumberSelection st selectedNumbers =
        Inr (st\<lparr>message := Some ''Selected numbers are not valid for this cell!''\<rparr>, None)"
    if "selectedCell st = Some (r, k)" "cell_at (board st) r k = Some cl"
      "cell_value cl = None" "cell_possibilities cl = Some qs" "wf_possibilities qs"
      "\<forall>n \<in> set selectedNumbers. show_nat n \<notin> set (map fst qs)"
  proof -
    from that(6) have "filter (\<lambda>n. show_nat n \<in> set (map fst qs)) selectedNumbers = []"
      by (simp add: filter_empty_conv)
    with validNumbers_keys [OF that(5), of selectedNumbers]
    have "validNumbers qs selectedNumbers = []" by simp
    with handleNumberSelection_superposition [OF that(1-4), of selectedNumbers]
    show ?thesis by simp
  qed
  from sent click empty blocked show ?thesis by blast
qed

theorem assign_candidates_valid_witness:
  "click_assign (example_state example_cell) [5, 2] =
     Inr (Called ((example_state example_cell)\<lparr>loading := True\<rparr>,
                  Some (assign_request 2 3 [5, 2])), []) \<and>
   wf_possibilities [(''2'', 50), (''5'', 50)] \<and>
   (\<exists>row col c ps candidates.
      selectedCell (example_state example_cell) = Some (row, col) \<and>
      cell_at (board (example_state example_cell)) row col = Some c \<and>
      cell_value c = None \<and> cell_possibilities c = Some ps \<and>
      assign_request 2 3 [5, 2] = assign_request row col candidates \<and> candidates \<noteq> [] \<and>
      list_all (\<lambda>n. n \<in> set [5, 2]) candidates \<and>
      wf_possibilities ps \<and>
      list_all (\<lambda>n. show_nat n \<in> set (map fst ps)) candidates) \<and>
   handleNumberSelection (example_state example_cell) [7, 8] =
     Inr ((example_state example_cell)
            \<lparr>message := Some ''Selected numbers are not valid for this cell!''\<rparr>, None)"
proof -
  have v: "validNumbers [(''2'', 50), (''5'', 50)] [5, 2] = [5, 2]"
    by (simp add: validNumbers_def example_current)
  have run: "handleNumberSelection (example_state example_cell) [5, 2] =
     Inr ((example_state example_cell)\<lparr>loading := True\<rparr>, Some (assign_request 2 3 [5, 2]))"
    by (simp add: handleNumberSelection_superposition [OF example_selected example_cell_at
          example_cell_fields] v)
  have click: "click_assign (example_state example_cell) [5, 2] =
     Inr (Called ((example_state example_cell)\<lparr>loading := True\<rparr>,
                  Some (assign_request 2 3 [5, 2])), [])"
    by (simp add: click_assign_def handleAssign_def run)
  have texts: "show_nat 7 = ''7''" "show_nat 8 = ''8''" by (rule show_nat_keys)+
  have none: "\<forall>n \<in> set [7, 8]. show_nat n \<notin> set (map fst [(''2'', 50::rat), (''5'', 50)])"
    by (simp add: texts)
  note a = assign_candidates_valid
    [of "example_state example_cell" "[5, 2]" "(example_state example_cell)\<lparr>loading := True\<rparr>"
        "assign_request 2 3 [5, 2]" "[]" 2 3 example_cell "[(''2'', 50), (''5'', 50)]"]
  note b = assign_candidates_valid
    [of "example_state example_cell" "[7, 8]" "(example_state example_cell)\<lparr>loading := True\<rparr>"
        "assign_request 2 3 [5, 2]" "[]" 2 3 example_cell "[(''2'', 50), (''5'', 50)]"]
  from a click obtain row col c ps candidates where
    w: "selectedCell (example_state example_cell) = Some (row, col)"
      "cell_at (board (example_state example_cell)) row col = Some c"
      "cell_value c = None" "cell_possibilities c = Some ps"
      "assign_request 2 3 [5, 2] = assign_request row col candidates" "candidates \<noteq> []"
      "\<forall>n \<in> set candidates. n \<in> set [5, 2]"
    and k: "wf_possibilities ps \<longrightarrow>
        candidates = filter (\<lambda>n. show_nat n \<in> set (map fst ps)) [5, 2] \<and>
        (\<forall>n \<in> set candidates. show_nat n \<in> set (map fst ps))"
    by blast
  from w(1) example_selected [of example_cell] have "row = 2" "col = 3" by simp_all
  with w(2) example_cell_at [of example_cell] have "c = example_cell" by simp
  with w(4) example_cell_fields(2) have ps: "ps = [(''2'', 50), (''5'', 50)]" by simp
  with example_wf have wfps: "wf_possibilities ps" by simp
  with k have "\<forall>n \<in> set candidates. show_nat n \<in> set (map fst ps)" by blast
  with w wfps have "selectedCell (example_state example_cell) = Some (row, col) \<and>
      cell_at (board (example_state example_cell)) row col = Some c \<and>
      cell_value c = None \<and> cell_possibilities c = Some ps \<and>
      assign_request 2 3 [5, 2] = assign_request row col candidates \<and> candidates \<noteq> [] \<and>
      list_all (\<lambda>n. n \<in> set [5, 2]) candidates \<and>
      wf_possibilities ps \<and>
      list_all (\<lambda>n. show_nat n \<in> set (map fst ps)) candidates"
    unfolding list_all_iff by (intro conjI)
  then have "\<exists>row col c ps candidates.
      selectedCell (example_state example_cell) = Some (row, col) \<and>
      cell_at (board (example_state example_cell)) row col = Some c \<and>
      cell_value c = None \<and> cell_possibilities c = Some ps \<and>
      assign_request 2 3 [5, 2] = assign_request row col candidates \<and> candidates \<noteq> [] \<and>
      list_all (\<lambda>n. n \<in> set [5, 2]) candidates \<and>
      wf_possibilities ps \<and>
      list_all (\<lambda>n. show_nat n \<in> set (map fst ps)) candidates"
    by (intro exI)
  moreover from b none example_selected example_cell_at example_cell_fields example_wf
  have "handleNumberSelection (example_state example_cell) [7, 8] =
     Inr ((example_state example_cell)
            \<lparr>message := Some ''Selected numbers are not valid for this cell!''\<rparr>, None)"
    by blast
  ultimately show ?thesis using click example_wf by blast
qed

subsection \<open>Rendering a cell\<close>

lemma mset_sortPossibilities:
  "mset (sortPossibilities ps) = mset (map (\<lambda>(number, probability). (parseInt10 number, probability)) ps)"
  by (simp add: sortPossibilities_def mset_js_sort)

lemma length_sortPossibilities: "length (sortPossibilities ps) = length ps"
  using mset_eq_length [OF mset_sortPossibilities] by simp

lemma render_entries:
  "map render_possibility (map (\<lambda>(number, probability). (parseInt10 number, probability)) ps) =
   map (\<lambda>(k, p). \<lparr>pv_number = parseInt10 k, pv_backgroundColor = getProbabilityColor p,
                   pv_data_probability = toFixed0 p @ ''%''\<rparr>) ps"
  by (simp add: render_possibility_def case_prod_beta)

lemma mset_rendered:
  "mset (map render_possibility (sortPossibilities ps)) =
   mset (map (\<lambda>(k, p). \<lparr>pv_number = parseInt10 k, pv_backgroundColor = getProbabilityColor p,
                   pv_data_probability = toFixed0 p @ ''%''\<rparr>) ps)"
proof -
  have "image_mset render_possibility (mset (sortPossibilities ps)) =
      image_mset render_possibility
        (mset (map (\<lambda>(number, probability). (parseInt10 number, probability)) ps))"
    using mset_sortPossibilities by (rule arg_cong)
  then have "mset (map render_possibility (sortPossibilities ps)) =
      mset (map render_possibility
        (map (\<lambda>(number, probability). (parseInt10 number, probability)) ps))"
    by (simp only: mset_map)
  then show ?thesis by (simp only: render_entries)
qed

lemma render_cell_fixed: "cell_value c = Some v \<Longrightarrow> render_cell c = Inr (FixedValue v)"
  by (simp add: render_cell_def)

lemma render_cell_possibilities:
  "cell_value c = None \<Longrightarrow> cell_possibilities c = Some ps \<Longrightarrow>
   render_cell c = Inr (Possibilities (map render_possibility (sortPossibilities ps)))"
  by (simp add: render_cell_def)

lemma render_cell_neither:
  "cell_value c = None \<Longrightarrow> cell_possibilities c = None \<Longrightarrow> render_cell c = Inl TypeError"
  by (simp add: render_cell_def)

text \<open>
  C5. A cell is rendered as a Fixed cell exactly when its \<^verbatim>\<open>value\<close> field is defined.
  Otherwise, a cell with a possibilities object is rendered as one candidate per entry of
  the object, each with the number parsed from the entry's key and the colour of the
  entry's probability. For a cell object of the board JSON (it has a \<^verbatim>\<open>value\<close> or a
  \<^verbatim>\<open>possibilities\<close> field) exactly one of the two renderings applies.
\<close>

theorem render_cell_variants:
  "((\<exists>v. render_cell c = Inr (FixedValue v)) \<longleftrightarrow> cell_value c \<noteq> None) \<and>
   (cell_value c = Some v \<longrightarrow> render_cell c = Inr (FixedValue v)) \<and>
   (cell_value c = None \<and> cell_possibilities c = Some ps \<longrightarrow>
      (\<exists>vs. render_cell c = Inr (Possibilities vs) \<and> length vs = length ps \<and>
         mset vs =
           mset (map (\<lambda>(k, p). \<lparr>pv_number = parseInt10 k,
                                 pv_backgroundColor = getProbabilityColor p,
                                 pv_data_probability = toFixed0 p @ ''%''\<rparr>) ps))) \<and>
   (cell_value c \<noteq> None \<or> cell_possibilities c \<noteq> None \<longrightarrow>
      ((\<exists>v. render_cell c = Inr (FixedValue v)) \<noteq> (\<exists>vs. render_cell c = Inr (Possibilities vs))))"
proof -
  have fixed_iff: "(\<exists>v. render_cell c = Inr (FixedValue v)) \<longleftrightarrow> cell_value c \<noteq> None"
  proof
    assume "\<exists>v. render_cell c = Inr (FixedValue v)"
    then show "cell_value c \<noteq> None"
      by (auto simp: render_cell_def split: option.splits if_splits)
  next
    assume "cell_value c \<noteq> None"
    then obtain w where "cell_value c = Some w" by blast
    then show "\<exists>v. render_cell c = Inr (FixedValue v)"
      using render_cell_fixed by blast
  qed
  have poss: "\<exists>vs. render_cell c = Inr (Possibilities vs) \<and> length vs = length ps \<and>
         mset vs =
           mset (map (\<lambda>(k, p). \<lparr>pv_number = parseInt10 k,
                                 pv_backgroundColor = getProbabilityColor p,
                                 pv_data_probability = toFixed0 p @ ''%''\<rparr>) ps)"
    if none: "cell_value c = None" and some: "cell_possibilities c = Some ps"
  proof -
    let ?vs = "map render_possibility (sortPossibilities ps)"
    have r: "render_cell c = Inr (Possibilities ?vs)"
      using none some by (rule render_cell_possibilities)
    have m: "mset ?vs = mset (map (\<lambda>(k, p). \<lparr>pv_number = parseInt10 k,
                                 pv_backgroundColor = getProbabilityColor p,
                                 pv_data_probability = toFixed0 p @ ''%''\<rparr>) ps)"
      by (rule mset_rendered)
    have l: "length ?vs = length ps"
      by (simp add: length_sortPossibilities)
    from r l m show ?thesis by (intro exI [of _ ?vs] conjI)
  qed
  have one: "(\<exists>v. render_cell c = Inr (FixedValue v)) \<noteq> (\<exists>vs. render_cell c = Inr (Possibilities vs))"
    if "cell_value c \<noteq> None \<or> cell_possibilities c \<noteq> None"
  proof (cases "cell_value c")
    case None
    with that obtain qs where "cell_possibilities c = Some qs" by blast
    with None show ?thesis by (simp add: render_cell_possibilities)
  next
    case (Some w)
    then show ?thesis by (simp add: render_cell_fixed)
  qed
  show ?thesis
  proof (intro conjI impI)
    show "(\<exists>v. render_cell c = Inr (FixedValue v)) \<longleftrightarrow> cell_value c \<noteq> None"
      by (rule fixed_iff)
  next
    assume "cell_value c = Some v"
    then show "render_cell c = Inr (FixedValue v)" by (rule render_cell_fixed)
  next
    assume "cell_value c = None \<and> cell_possibilities c = Some ps"
    then have "cell_value c = None" "cell_possibilities c = Some ps" by simp_all
    then show "\<exists>vs. render_cell c = Inr (Possibilities vs) \<and> length vs = length ps \<and>
         mset vs =
           mset (map (\<lambda>(k, p). \<lparr>pv_number = parseInt10 k,
                                 pv_backgroundColor = getProbabilityColor p,
                                 pv_data_probability = toFixed0 p @ ''%''\<rparr>) ps)"
      by (rule poss)
  next
    assume "cell_value c \<noteq> None \<or> cell_possibilities c \<noteq> None"
    then show "(\<exists>v. render_cell c = Inr (FixedValue v)) \<noteq>
        (\<exists>vs. render_cell c = Inr (Possibilities vs))"
      by (rule one)
  qed
qed

theorem render_cell_variants_witness:
  "render_cell example_fixed_cell = Inr (FixedValue 4) \<and>
   render_cell example_cell =
     Inr (Possibilities
       [\<lparr>pv_number = Some 2, pv_backgroundColor = ''rgb(128, 255, 128)'',
         pv_data_probability = ''50%''\<rparr>,
        \<lparr>pv_number = Some 5, pv_backgroundColor = ''rgb(128, 255, 128)'',
         pv_data_probability = ''50%''\<rparr>]) \<and>
   (\<exists>vs. render_cell example_cell = Inr (Possibilities vs) \<and> length vs = 2) \<and>
   ((\<exists>v. render_cell example_cell = Inr (FixedValue v)) \<noteq>
    (\<exists>vs. render_cell example_cell = Inr (Possibilities vs)))"
proof -
  have f: "cell_value example_fixed_cell = Some 4"
    by (simp add: example_fixed_cell_def)
  have r: "render_cell example_cell =
     Inr (Possibilities
       [\<lparr>pv_number = Some 2, pv_backgroundColor = ''rgb(128, 255, 128)'',
         pv_data_probability = ''50%''\<rparr>,
        \<lparr>pv_number = Some 5, pv_backgroundColor = ''rgb(128, 255, 128)'',
         pv_data_probability = ''50%''\<rparr>])"
  proof -
    have sorted: "sortPossibilities [(''2'', 50), (''5'', 50)] = [(Some 2, 50), (Some 5, 50)]"
      by code_simp
    have shade: "getProbabilityColor 50 = ''rgb(128, 255, 128)''" by code_simp
    have percent: "toFixed0 50 = ''50''" by code_simp
    have "render_cell example_cell =
        Inr (Possibilities (map render_possibility
              (sortPossibilities [(''2'', 50), (''5'', 50)])))"
      using example_cell_fields by (rule render_cell_possibilities)
    then show ?thesis
      by (simp only: sorted list.map render_possibility_def prod.case shade percent append.simps)
  qed
  from render_cell_variants [of example_fixed_cell 4 "[]"] f
  have a: "render_cell example_fixed_cell = Inr (FixedValue 4)" by (elim conjE) simp
  note v = render_cell_variants [of example_cell 4 "[(''2'', 50), (''5'', 50)]"]
  from v have "cell_value example_cell = None \<and>
      cell_possibilities example_cell = Some [(''2'', 50), (''5'', 50)] \<longrightarrow>
      (\<exists>vs. render_cell example_cell = Inr (Possibilities vs) \<and>
         length vs = length [(''2'', 50::rat), (''5'', 50)] \<and>
         mset vs =
           mset (map (\<lambda>(k, p). \<lparr>pv_number = parseInt10 k,
                                 pv_backgroundColor = getProbabilityColor p,
                                 pv_data_probability = toFixed0 p @ ''%''\<rparr>)
                  [(''2'', 50), (''5'', 50)]))"
    by (elim conjE)
  with example_cell_fields obtain vs where
    "render_cell example_cell = Inr (Possibilities vs)"
    "length vs = length [(''2'', 50::rat), (''5'', 50)]"
    by (elim impE exE conjE) (rule conjI)
  then have b: "\<exists>vs. render_cell example_cell = Inr (Possibilities vs) \<and> length vs = 2"
    by (intro exI [of _ vs]) simp
  from v have "cell_value example_cell \<noteq> None \<or> cell_possibilities example_cell \<noteq> None \<longrightarrow>
      ((\<exists>v. render_cell example_cell = Inr (FixedValue v)) \<noteq>
       (\<exists>vs. render_cell example_cell = Inr (Possibilities vs)))"
    by (elim conjE)
  moreover have "cell_value example_cell \<noteq> None \<or> cell_possibilities example_cell \<noteq> None"
    by (simp add: example_cell_fields)
  ultimately have c: "(\<exists>v. render_cell example_cell = Inr (FixedValue v)) \<noteq>
      (\<exists>vs. render_cell example_cell = Inr (Possibilities vs))"
    by (rule mp)
  show ?thesis by (intro conjI a r b c)
qed

section \<open>The engine behind the HTTP contract\<close>

text \<open>
  The backend (the FastAPI server with the constraint propagation engine, the probability
  model and the board state store) is not among the sources. Its definitions below are
  modelled from the specification, sections 3, 4.2, 4.3, 4.4 and 7.
\<close>

text \<open>Modelled from the spec: a cell is identified by \<open>(row, col)\<close> (section 3).\<close>

type_synonym pos = "nat \<times> nat"

text \<open>
  Modelled from the spec: the engine's Cell (section 3), which the sources do not hold.
  A cell is Fixed with one value, or in Superposition with a mapping from candidate values
  to probabilities.
\<close>

datatype engine_cell = Fixed nat | Superposition "(nat \<times> rat) list"

text \<open>
  Modelled from the spec: the engine's Board (section 3), a 9 by 9 grid of cells, read at
  a position \<open>(row, col)\<close>.
\<close>

type_synonym engine_board = "pos \<Rightarrow> engine_cell"

text \<open>Modelled from the spec: the error taxonomy of section 7 (a) to (c).\<close>

datatype engine_error = InvalidRequest | AlreadyFixed | Conflict

text \<open>Modelled from the spec: the positions of the grid, in row-major order.\<close>

definition all_positions :: "pos list" where
  "all_positions = concat (map (\<lambda>r. map (\<lambda>c. (r, c)) [0..<9]) [0..<9])"

text \<open>
  Modelled from the spec: the peer relation (section 3): two distinct cells are peers if
  they share a row, a column or a 3 by 3 block. The peers of a cell are scanned in
  row-major order (section 4.2, tie-breaks).
\<close>

definition peers :: "pos \<Rightarrow> pos list" where
  "peers p =
     filter (\<lambda>q. q \<noteq> p \<and>
                 (fst q = fst p \<or> snd q = snd p \<or>
                  (fst q div 3 = fst p div 3 \<and> snd q div 3 = snd p div 3)))
       all_positions"

text \<open>
  Modelled from the spec: the probability model (section 4.3) in its default form, the
  uniform distribution over the candidate set scaled to 100.
\<close>

definition probabilities :: "nat list \<Rightarrow> (nat \<times> rat) list" where
  "probabilities cs = map (\<lambda>v. (v, 100 / of_nat (length cs))) cs"

text \<open>
  Modelled from the spec: the candidate set of a cell; a Fixed cell has its value only.
\<close>

fun candidates :: "engine_cell \<Rightarrow> nat list" where
  "candidates (Fixed w) = [w]"
| "candidates (Superposition ps) = map fst ps"

text \<open>Modelled from the spec: whether a cell is in Superposition (section 3).\<close>

fun is_superposition :: "engine_cell \<Rightarrow> bool" where
  "is_superposition (Fixed w) = False"
| "is_superposition (Superposition ps) = True"

text \<open>
  Modelled from the spec: one propagation step at a peer (section 4.2): the value the
  collapsed cell took is removed from the peer. A peer left with no candidate is a
  Conflict; so is a Fixed peer that holds the same value (the duplicate-in-row scenario of
  section 8). A peer left with one candidate collapses to Fixed, reported as \<open>Some w\<close>;
  otherwise the remaining candidates are renormalised.
\<close>

fun eliminate :: "nat \<Rightarrow> engine_cell \<Rightarrow> engine_error + engine_cell \<times> nat option" where
  "eliminate v (Fixed w) = (if w = v then Inl Conflict else Inr (Fixed w, None))"
| "eliminate v (Superposition ps) =
     (if v \<notin> set (map fst ps) then Inr (Superposition ps, None)
      else (case remdups (filter (\<lambda>w. w \<noteq> v) (map fst ps)) of
              [] \<Rightarrow> Inl Conflict
            | [w] \<Rightarrow> Inr (Fixed w, Some w)
            | ws \<Rightarrow> Inr (Superposition (probabilities ws), None)))"

text \<open>
  Modelled from the spec: the scan of the peers of one collapsed cell, on a working copy of
  the board. It halts at the first Conflict; otherwise it returns the updated copy and the
  peers that collapsed, in scan order.
\<close>

fun sweep ::
  "nat \<Rightarrow> pos list \<Rightarrow> engine_board \<Rightarrow> engine_error + engine_board \<times> (pos \<times> nat) list" where
  "sweep v [] b = Inr (b, [])"
| "sweep v (q # qs) b =
     (case eliminate v (b q) of
        Inl e \<Rightarrow> Inl e
      | Inr (c', collapsed) \<Rightarrow>
          (case sweep v qs (b(q := c')) of
             Inl e \<Rightarrow> Inl e
           | Inr (b', new) \<Rightarrow>
               Inr (b', (case collapsed of None \<Rightarrow> [] | Some w \<Rightarrow> [(q, w)]) @ new)))"

text \<open>
  Modelled from the spec: the number of cells of the grid that are in Superposition. By
  section 4.2 (termination) propagation shrinks it with every forced collapse; it is the
  measure of the termination proof below.
\<close>

definition unsettled :: "engine_board \<Rightarrow> nat" where
  "unsettled b = card {q \<in> set all_positions. is_superposition (b q)}"

lemma unsettled_same:
  assumes "is_superposition c' = is_superposition (b q)"
  shows "unsettled (b(q := c')) = unsettled b"
proof -
  have "{x \<in> set all_positions. is_superposition ((b(q := c')) x)} =
        {x \<in> set all_positions. is_superposition (b x)}"
    using assms by auto
  then show ?thesis by (simp only: unsettled_def)
qed

lemma unsettled_collapse:
  assumes "q \<in> set all_positions" "is_superposition (b q)" "\<not> is_superposition c'"
  shows "Suc (unsettled (b(q := c'))) = unsettled b"
proof -
  let ?A = "{x \<in> set all_positions. is_superposition (b x)}"
  have "{x \<in> set all_positions. is_superposition ((b(q := c')) x)} = ?A - {q}"
    using assms(3) by auto
  moreover have "finite ?A" by simp
  moreover have "q \<in> ?A" using assms(1,2) by simp
  ultimately show ?thesis by (simp only: unsettled_def card_Suc_Diff1)
qed

lemma eliminate_kept:
  assumes "eliminate v c = Inr (c', None)"
  shows "is_superposition c' = is_superposition c"
  using assms by (cases c) (auto split: if_splits list.splits)

lemma eliminate_collapsed:
  assumes "eliminate v c = Inr (c', Some w)"
  shows "is_superposition c \<and> c' = Fixed w"
  using assms by (cases c) (auto split: if_splits list.splits)

lemma sweep_unsettled:
  assumes "set qs \<subseteq> set all_positions" "sweep v qs b = Inr (b', new)"
  shows "unsettled b' + length new \<le> unsettled b"
  using assms
proof (induction qs arbitrary: b b' new)
  case Nil
  then show ?case by simp
next
  case (Cons q qs)
  from Cons.prems(2) obtain c' collapsed b1 new1 where
    el: "eliminate v (b q) = Inr (c', collapsed)"
    and sw: "sweep v qs (b(q := c')) = Inr (b1, new1)"
    and res: "b' = b1" "new = (case collapsed of None \<Rightarrow> [] | Some w \<Rightarrow> [(q, w)]) @ new1"
    by (auto split: sum.splits prod.splits)
  from Cons.prems(1) have q: "q \<in> set all_positions" and qs: "set qs \<subseteq> set all_positions"
    by simp_all
  from Cons.IH [OF qs sw] have ih: "unsettled b1 + length new1 \<le> unsettled (b(q := c'))" .
  show ?case
  proof (cases collapsed)
    case None
    with el have "unsettled (b(q := c')) = unsettled b"
      by (intro unsettled_same eliminate_kept) simp
    with ih res None show ?thesis by simp
  next
    case (Some w)
    with el have "is_superposition (b q)" "c' = Fixed w"
      using eliminate_collapsed by blast+
    then have "Suc (unsettled (b(q := c'))) = unsettled b"
      using q by (intro unsettled_collapse) simp_all
    with ih res Some show ?thesis by simp
  qed
qed

lemma peers_in_grid: "set (peers p) \<subseteq> set all_positions"
  by (auto simp: peers_def)

text \<open>
  Modelled from the spec: transitive propagation (section 4.2), breadth first with a work
  queue of the cells that have just collapsed (section 9), until no forced collapse is
  left or a Conflict halts it.
\<close>

function propagate :: "engine_board \<Rightarrow> (pos \<times> nat) list \<Rightarrow> engine_error + engine_board" where
  "propagate b [] = Inr b"
| "propagate b ((p, v) # queue) =
     (case sweep v (peers p) b of
        Inl e \<Rightarrow> Inl e
      | Inr (b', new) \<Rightarrow> propagate b' (queue @ new))"
  by pat_completeness auto
termination
proof (relation "measure (\<lambda>(b, queue). unsettled b + length queue)")
  show "wf (measure (\<lambda>(b, queue). unsettled b + length queue))" by simp
next
  fix b :: engine_board and p v queue x b' new
  assume "sweep v (peers p) b = Inr x" "(b', new) = x"
  then have "sweep v (peers p) b = Inr (b', new)" by simp
  from sweep_unsettled [OF peers_in_grid this]
  show "((b', queue @ new), (b, (p, v) # queue)) \<in> measure (\<lambda>(b, queue). unsettled b + length queue)"
    by simp
qed

declare propagate.simps [simp del]

text \<open>
  Modelled from the spec: the contract \<open>assign\<close> of section 4.2. Coordinates outside the
  grid, an empty list of values and a value outside the cell's candidate set are an
  InvalidRequest; a Fixed target is AlreadyFixed. One value collapses the cell and
  propagates; several values restrict the cell, which stays in Superposition, and nothing
  is removed from its peers.
\<close>

definition assign ::
  "engine_board \<Rightarrow> nat \<Rightarrow> nat \<Rightarrow> nat list \<Rightarrow> engine_error + engine_board" where
  "assign b row col vals =
     (if \<not> (row < 9 \<and> col < 9) then Inl InvalidRequest
      else (case b (row, col) of
              Fixed w \<Rightarrow> Inl AlreadyFixed
            | Superposition ps \<Rightarrow>
                if vals = [] \<or> \<not> set vals \<subseteq> set (map fst ps) then Inl InvalidRequest
                else (case remdups vals of
                        [v] \<Rightarrow> propagate (b((row, col) := Fixed v)) [((row, col), v)]
                      | vs \<Rightarrow> Inr (b((row, col) := Superposition (probabilities vs))))))"

text \<open>
  Modelled from the spec: the board state store's \<open>apply\<close> (section 4.4 and 7): the
  engine works on a copy, and the stored board is replaced only by the board of a
  successful assignment. The result is the stored board afterwards and the reply.
\<close>

definition apply_assign ::
  "engine_board \<Rightarrow> nat \<Rightarrow> nat \<Rightarrow> nat list \<Rightarrow> engine_board \<times> (engine_error + engine_board)" where
  "apply_assign stored row col vals =
     (case assign stored row col vals of
        Inl e \<Rightarrow> (stored, Inl e)
      | Inr b' \<Rightarrow> (b', Inr b'))"

text \<open>
  Modelled from the spec: "propagation empties a peer's candidate set". A cell is emptied
  by the removal of \<open>v\<close> when \<open>v\<close> is its only candidate. Propagation from a work queue
  empties a peer when, in the scan for the cell at the head of the queue, some peer is
  emptied at the moment it is reached, or the scan completes and propagation from the
  new queue empties a peer.
\<close>

definition emptied :: "nat \<Rightarrow> engine_cell \<Rightarrow> bool" where
  "emptied v c = (set (candidates c) = {v})"

text \<open>
  Modelled from the spec: propagation from a work queue empties a peer (section 4.2), as
  described above.
\<close>

inductive empties_peer :: "engine_board \<Rightarrow> (pos \<times> nat) list \<Rightarrow> bool" where
  here: "peers p = before @ q # rest \<Longrightarrow> sweep v before b = Inr (b1, new) \<Longrightarrow>
         emptied v (b1 q) \<Longrightarrow> empties_peer b ((p, v) # queue)"
| later: "sweep v (peers p) b = Inr (b', new) \<Longrightarrow> empties_peer b' (queue @ new) \<Longrightarrow>
          empties_peer b ((p, v) # queue)"

text \<open>
  Modelled from the spec: the scenario of section 8, a fresh grid with the single Fixed
  cell (0,0) = 5.
\<close>

definition scenario_board :: engine_board where
  "scenario_board = (\<lambda>p. Superposition (probabilities [1, 2, 3, 4, 5, 6, 7, 8, 9]))((0, 0) := Fixed 5)"

subsection \<open>A Conflict leaves the stored board as it was\<close>

lemma eliminate_conflict_iff: "eliminate v c = Inl e \<longleftrightarrow> e = Conflict \<and> emptied v c"
proof (cases c)
  case (Fixed w)
  then show ?thesis by (auto simp: emptied_def)
next
  case (Superposition ps)
  show ?thesis
  proof (cases "v \<in> set (map fst ps)")
    case False
    with Superposition show ?thesis by (auto simp: emptied_def)
  next
    case True
    have "filter (\<lambda>w. w \<noteq> v) (map fst ps) = [] \<longleftrightarrow> set (map fst ps) = {v}"
      using True by (auto simp: filter_empty_conv)
    moreover have "remdups (filter (\<lambda>w. w \<noteq> v) (map fst ps)) = [] \<longleftrightarrow>
        filter (\<lambda>w. w \<noteq> v) (map fst ps) = []"
      by simp
    ultimately have "remdups (filter (\<lambda>w. w \<noteq> v) (map fst ps)) = [] \<longleftrightarrow> emptied v c"
      using Superposition by (simp add: emptied_def)
    with Superposition True show ?thesis
      by (cases "remdups (filter (\<lambda>w. w \<noteq> v) (map fst ps))")
         (auto split: list.splits)
  qed
qed

lemma sweep_append:
  "sweep v (xs @ ys) b =
     (case sweep v xs b of
        Inl e \<Rightarrow> Inl e
      | Inr (b1, new1) \<Rightarrow>
          (case sweep v ys b1 of
             Inl e \<Rightarrow> Inl e
           | Inr (b2, new2) \<Rightarrow> Inr (b2, new1 @ new2)))"
  by (induction xs arbitrary: b) (auto split: sum.splits prod.splits option.splits)

lemma sweep_emptied:
  assumes "sweep v before b = Inr (b1, new)" "emptied v (b1 q)"
  shows "sweep v (before @ q # rest) b = Inl Conflict"
proof -
  from assms(2) have "eliminate v (b1 q) = Inl Conflict"
    by (simp add: eliminate_conflict_iff)
  then have "sweep v (q # rest) b1 = Inl Conflict" by simp
  with assms(1) show ?thesis by (simp add: sweep_append)
qed

lemma sweep_error:
  assumes "sweep v qs b = Inl e"
  shows "e = Conflict \<and>
         (\<exists>before q rest b1 new. qs = before @ q # rest \<and> sweep v before b = Inr (b1, new) \<and>
            emptied v (b1 q))"
  using assms
proof (induction qs arbitrary: b)
  case Nil
  then show ?case by simp
next
  case (Cons q qs)
  show ?case
  proof (cases "eliminate v (b q)")
    case (Inl e')
    with Cons.prems have "e' = e" by simp
    with Inl have "e = Conflict" "emptied v (b q)"
      by (simp_all add: eliminate_conflict_iff)
    moreover have "q # qs = [] @ q # qs" "sweep v [] b = Inr (b, [])" by simp_all
    ultimately show ?thesis by blast
  next
    case (Inr r)
    obtain c' collapsed where r: "r = (c', collapsed)" by (cases r)
    with Inr Cons.prems have "sweep v qs (b(q := c')) = Inl e"
      by (auto split: sum.splits)
    from Cons.IH [OF this] obtain before q' rest b1 new where
      e: "e = Conflict" and split: "qs = before @ q' # rest"
      and pre: "sweep v before (b(q := c')) = Inr (b1, new)" and em: "emptied v (b1 q')"
      by blast
    from Inr r pre have "sweep v (q # before) b =
        Inr (b1, (case collapsed of None \<Rightarrow> [] | Some w \<Rightarrow> [(q, w)]) @ new)"
      by simp
    moreover from split have "q # qs = (q # before) @ q' # rest" by simp
    ultimately show ?thesis using e em by blast
  qed
qed

lemma empties_peer_conflict:
  assumes "empties_peer b queue"
  shows "propagate b queue = Inl Conflict"
  using assms
proof (induction rule: empties_peer.induct)
  case (here p before q rest v b b1 new queue)
  then have "sweep v (peers p) b = Inl Conflict"
    by (simp add: sweep_emptied)
  then show ?case by (simp add: propagate.simps)
next
  case (later v p b b' new queue)
  then show ?case by (simp add: propagate.simps)
qed

lemma propagate_error:
  assumes "propagate b queue = Inl e"
  shows "e = Conflict \<and> empties_peer b queue"
  using assms
proof (induction b queue rule: propagate.induct)
  case (1 b)
  then show ?case by (simp add: propagate.simps)
next
  case (2 b p v queue)
  show ?case
  proof (cases "sweep v (peers p) b")
    case (Inl e')
    with "2.prems" have "e' = e" by (simp add: propagate.simps)
    with Inl sweep_error [of v "peers p" b e] show ?thesis
      by (auto intro: empties_peer.here)
  next
    case (Inr r)
    obtain b' new where r: "r = (b', new)" by (cases r)
    with Inr "2.prems" have "propagate b' (queue @ new) = Inl e"
      by (simp add: propagate.simps)
    with "2.IH" Inr r have "e = Conflict \<and> empties_peer b' (queue @ new)" by simp
    with Inr r show ?thesis by (auto intro: empties_peer.later)
  qed
qed

lemma apply_assign_error:
  assumes "assign stored row col vals = Inl e"
  shows "apply_assign stored row col vals = (stored, Inl e)"
  using assms by (simp add: apply_assign_def)

lemma scenario_peers: "peers (0, 1) = [] @ (0, 0) # tl (peers (0, 1))"
  by code_simp

text \<open>
  C2. An assign operation collapses a Superposition cell of the grid to one of its
  candidates and propagates. If that propagation empties some peer's candidate set, the
  operation replies with the Conflict error and the stored board afterwards is the
  stored board before. (Any error reply leaves the stored board as it was.)
\<close>

theorem conflict_leaves_board:
  assumes grid: "row < 9" "col < 9"
    and target: "stored (row, col) = Superposition ps"
    and valid: "vals \<noteq> []" "set vals \<subseteq> set (map fst ps)"
    and single: "remdups vals = [v]"
    and empties: "empties_peer (stored((row, col) := Fixed v)) [((row, col), v)]"
  shows "apply_assign stored row col vals = (stored, Inl Conflict) \<and>
         (\<forall>r c ws e. snd (apply_assign stored r c ws) = Inl e \<longrightarrow>
            fst (apply_assign stored r c ws) = stored)"
proof
  from empties have "propagate (stored((row, col) := Fixed v)) [((row, col), v)] = Inl Conflict"
    by (rule empties_peer_conflict)
  with grid target valid single have "assign stored row col vals = Inl Conflict"
    by (simp add: assign_def)
  then show "apply_assign stored row col vals = (stored, Inl Conflict)"
    by (rule apply_assign_error)
next
  show "\<forall>r c ws e. snd (apply_assign stored r c ws) = Inl e \<longrightarrow>
            fst (apply_assign stored r c ws) = stored"
    by (auto simp: apply_assign_def split: sum.splits)
qed

theorem conflict_leaves_board_witness:
  "apply_assign scenario_board 0 1 [5] = (scenario_board, Inl Conflict) \<and>
   scenario_board (0, 0) = Fixed 5 \<and>
   candidates (scenario_board (0, 1)) = [1, 2, 3, 4, 5, 6, 7, 8, 9]"
proof -
  have target: "scenario_board (0, 1) = Superposition (probabilities [1, 2, 3, 4, 5, 6, 7, 8, 9])"
    by (simp add: scenario_board_def)
  have cands: "map fst (probabilities [1, 2, 3, 4, 5, 6, 7, 8, 9]) = [1, 2, 3, 4, 5, 6, 7, 8, 9]"
    by (simp add: probabilities_def)
  have valid: "[5::nat] \<noteq> []"
    "set [5::nat] \<subseteq> set (map fst (probabilities [1, 2, 3, 4, 5, 6, 7, 8, 9]))"
    unfolding cands by simp_all
  have single: "remdups [5::nat] = [5]" by simp
  have em: "emptied 5 ((scenario_board((0, 1) := Fixed 5)) (0, 0))"
    by (simp add: scenario_board_def emptied_def)
  have "sweep 5 [] (scenario_board((0, 1) := Fixed 5)) = Inr (scenario_board((0, 1) := Fixed 5), [])"
    by simp
  with scenario_peers have empties: "empties_peer (scenario_board((0, 1) := Fixed 5)) [((0, 1), 5)]"
    using em by (rule empties_peer.here)
  have grid: "(0::nat) < 9" "(1::nat) < 9" by simp_all
  from conflict_leaves_board [OF grid target valid single empties]
  have "apply_assign scenario_board 0 1 [5] = (scenario_board, Inl Conflict)" by (rule conjunct1)
  moreover have "scenario_board (0, 0) = Fixed 5" by (simp add: scenario_board_def)
  moreover have "candidates (scenario_board (0, 1)) = [1, 2, 3, 4, 5, 6, 7, 8, 9]"
    unfolding target candidates.simps cands by (rule refl)
  ultimately show ?thesis by (intro conjI)
qed

end
